theory Spec2Isabelle
  imports Main "HOL-Library.Char_ord"
begin

section \<open>The syntax tree\<close>

text \<open>
  A \<open>Node\<close> of the source is a struct with a type tag, a slice of pointers to child
  nodes and a literal value. A child pointer may be nil (the tagging combinator \<open>As\<close>
  stores the nil result of a failed sub-parser), so a child is a \<open>Node option\<close>. The
  zero value of the \<open>Value\<close> field is the empty string, the zero value of \<open>Children\<close>
  the empty list.
\<close>

datatype Node = Node (Type: string) (Children: "Node option list") (Value: string)

definition Char_NodeType :: string where
  "Char_NodeType = ''Char''"

definition Whitespace :: string where
  "Whitespace = ''Whitespace''"

section \<open>Parsers\<close>

text \<open>
  A \<open>Parser\<close> maps the input to a node pointer, the rest of the input and a success flag.
  Two combinators of the source loop with \<open>for { ... }\<close> until their sub-parser fails, and
  the grammar is recursive, so a call need not return: the result of a parser is an
  option, and \<open>None\<close> stands for a call that does not return.
\<close>

type_synonym Result = "Node option \<times> string \<times> bool"
type_synonym Parser = "string \<Rightarrow> Result option"

definition Digit :: Parser where
  "Digit input =
     (if length input > 0 \<and> CHR ''0'' \<le> input ! 0 \<and> input ! 0 \<le> CHR ''9''
      then Some (Some (Node Char_NodeType [] (take 1 input)), drop 1 input, True)
      else Some (None, '''', False))"

definition Character :: "char \<Rightarrow> Parser" where
  "Character chr input =
     (if length input > 0 \<and> input ! 0 = chr
      then Some (Some (Node Char_NodeType [] (take 1 input)), drop 1 input, True)
      else Some (None, '''', False))"

subsection \<open>The regular expressions of the grammar\<close>

text \<open>
  The source compiles five patterns with the regexp library of Go:
  \<^verbatim>\<open>-?[0-9]+\<close>, \<^verbatim>\<open>[a-zA-Z][a-zA-Z0-9]*\<close>, \<^verbatim>\<open>,?\<close>, \<^verbatim>\<open> *\<close> and \<^verbatim>\<open>[\n;]*\<close>.
  Each is a sequence of character classes, every class with one of the quantifiers
  (none), \<open>?\<close>, \<open>*\<close> and \<open>+\<close>. A class is a list of inclusive byte ranges.
  \<open>match_here\<close> is the match a backtracking search finds first at the start of the input
  (the quantifiers are greedy), and \<open>FindStringIndex\<close> is the leftmost such match, as the
  library documents it: the pair of the start and the end index, or nil (\<open>None\<close>).
  A string of Go is a sequence of bytes, a \<open>char\<close> here; the classes of the five patterns
  hold ASCII characters only, so no byte of a longer UTF-8 sequence is in any of them.
\<close>

datatype Quantifier = One | Optional | Star | Plus

type_synonym CharClass = "(char \<times> char) list"
type_synonym Regexp = "(CharClass \<times> Quantifier) list"

definition in_class :: "CharClass \<Rightarrow> char \<Rightarrow> bool" where
  "in_class cls c = list_ex (\<lambda>(lo, hi). lo \<le> c \<and> c \<le> hi) cls"

fun match_here :: "Regexp \<Rightarrow> string \<Rightarrow> nat option" where
  "match_here [] input = Some 0"
| "match_here ((cls, One) # re) [] = None"
| "match_here ((cls, One) # re) (c # cs) =
     (if in_class cls c then map_option Suc (match_here re cs) else None)"
| "match_here ((cls, Optional) # re) [] = match_here re []"
| "match_here ((cls, Optional) # re) (c # cs) =
     (if in_class cls c
      then (case match_here re cs of
              Some n \<Rightarrow> Some (Suc n)
            | None \<Rightarrow> match_here re (c # cs))
      else match_here re (c # cs))"
| "match_here ((cls, Star) # re) [] = match_here re []"
| "match_here ((cls, Star) # re) (c # cs) =
     (if in_class cls c
      then (case match_here ((cls, Star) # re) cs of
              Some n \<Rightarrow> Some (Suc n)
            | None \<Rightarrow> match_here re (c # cs))
      else match_here re (c # cs))"
| "match_here ((cls, Plus) # re) [] = None"
| "match_here ((cls, Plus) # re) (c # cs) =
     (if in_class cls c then map_option Suc (match_here ((cls, Star) # re) cs) else None)"

fun find_from :: "Regexp \<Rightarrow> nat \<Rightarrow> string \<Rightarrow> (nat \<times> nat) option" where
  "find_from re i [] =
     (case match_here re [] of Some n \<Rightarrow> Some (i, i + n) | None \<Rightarrow> None)"
| "find_from re i (c # cs) =
     (case match_here re (c # cs) of
        Some n \<Rightarrow> Some (i, i + n)
      | None \<Rightarrow> find_from re (Suc i) cs)"

definition FindStringIndex :: "Regexp \<Rightarrow> string \<Rightarrow> (nat \<times> nat) option" where
  "FindStringIndex regex input = find_from regex 0 input"

definition Regex :: "string \<Rightarrow> Regexp \<Rightarrow> Parser" where
  "Regex outType regex input =
     (case FindStringIndex regex input of
        None \<Rightarrow> Some (None, '''', False)
      | Some (i0, i1) \<Rightarrow>
          if i0 \<noteq> 0 then Some (None, '''', False)
          else Some (Some (Node outType [] (take (i1 - i0) (drop i0 input))),
                     drop i1 input, True))"

subsection \<open>The combinators\<close>

text \<open>
  \<open>Some\<close> of the source is \<open>Some_parser\<close> here (\<open>Some\<close> is the constructor of the option
  type). Its loop \<open>for { ... }\<close> has no bound: \<open>Some_for\<close> is the loop, with the children
  collected so far and the current rest as its state.
\<close>

partial_function (option) Some_for ::
  "string \<Rightarrow> Parser \<Rightarrow> Node option list \<Rightarrow> string \<Rightarrow> Result option" where
  "Some_for outType parser children rest =
     (case parser rest of
        None \<Rightarrow> None
      | Some (parserNode, parserRest, parserOk) \<Rightarrow>
          if \<not> parserOk then Some (Some (Node outType children ''''), rest, True)
          else Some_for outType parser (children @ [parserNode]) parserRest)"

declare Some_for.simps [code]

definition Some_parser :: "string \<Rightarrow> Parser \<Rightarrow> Parser" where
  "Some_parser outType parser input = Some_for outType parser [] input"

text \<open>
  \<open>successes parser k input\<close> applies the parser \<open>k\<close> times in a row, each time to the rest
  of the application before: it is the list of the \<open>k\<close> nodes, in order, and the rest
  after the last application, when all \<open>k\<close> applications succeed.
\<close>

fun successes :: "Parser \<Rightarrow> nat \<Rightarrow> string \<Rightarrow> (Node option list \<times> string) option" where
  "successes parser 0 input = Some ([], input)"
| "successes parser (Suc k) input =
     (case parser input of
        Some (parserNode, parserRest, True) \<Rightarrow>
          map_option (\<lambda>(children, rest). (parserNode # children, rest))
            (successes parser k parserRest)
      | _ \<Rightarrow> None)"

text \<open>
  \<open>AtLeast\<close> counts the successes in \<open>num\<close>, an \<open>int\<close> of Go. The count is at most the
  number of calls of the sub-parser, far below \<open>2^63\<close>, so it is an unbounded integer here.
\<close>

partial_function (option) AtLeast_for ::
  "string \<Rightarrow> int \<Rightarrow> Parser \<Rightarrow> int \<Rightarrow> Node option list \<Rightarrow> string \<Rightarrow> Result option" where
  "AtLeast_for outType minimum parser num children rest =
     (case parser rest of
        None \<Rightarrow> None
      | Some (parserNode, parserRest, parserOk) \<Rightarrow>
          if \<not> parserOk
          then (if num \<ge> minimum then Some (Some (Node outType children ''''), rest, True)
                else Some (None, '''', False))
          else AtLeast_for outType minimum parser (num + 1) (children @ [parserNode])
                 parserRest)"

declare AtLeast_for.simps [code]

definition AtLeast :: "string \<Rightarrow> int \<Rightarrow> Parser \<Rightarrow> Parser" where
  "AtLeast outType minimum parser input = AtLeast_for outType minimum parser 0 [] input"

fun Or :: "Parser list \<Rightarrow> Parser" where
  "Or [] input = Some (None, '''', False)"
| "Or (parser # parsers) input =
     (case parser input of
        None \<Rightarrow> None
      | Some (parserNode, parserRest, parserOk) \<Rightarrow>
          if parserOk then Some (parserNode, parserRest, True)
          else Or parsers input)"

fun Then_for :: "string \<Rightarrow> Parser list \<Rightarrow> Node option list \<Rightarrow> string \<Rightarrow> Result option" where
  "Then_for outType [] children rest = Some (Some (Node outType children ''''), rest, True)"
| "Then_for outType (parser # parsers) children rest =
     (case parser rest of
        None \<Rightarrow> None
      | Some (parserNode, parserRest, parserOk) \<Rightarrow>
          if \<not> parserOk then Some (None, '''', False)
          else Then_for outType parsers (children @ [parserNode]) parserRest)"

definition Then :: "string \<Rightarrow> Parser list \<Rightarrow> Parser" where
  "Then outType parsers input = Then_for outType parsers [] input"

fun ThenSkipping_for ::
  "string \<Rightarrow> Parser \<Rightarrow> Parser list \<Rightarrow> Node option list \<Rightarrow> string \<Rightarrow> Result option" where
  "ThenSkipping_for outType skip [] children rest =
     Some (Some (Node outType children ''''), rest, True)"
| "ThenSkipping_for outType skip (parser # parsers) children rest =
     (case skip rest of
        None \<Rightarrow> None
      | Some (_, skipRest, skipOk) \<Rightarrow>
          (case parser (if skipOk then skipRest else rest) of
             None \<Rightarrow> None
           | Some (parserNode, parserRest, parserOk) \<Rightarrow>
               if \<not> parserOk then Some (None, '''', False)
               else ThenSkipping_for outType skip parsers (children @ [parserNode])
                      parserRest))"

definition ThenSkipping :: "string \<Rightarrow> Parser \<Rightarrow> Parser list \<Rightarrow> Parser" where
  "ThenSkipping outType skip parsers input = ThenSkipping_for outType skip parsers [] input"

definition Skipping :: "Parser \<Rightarrow> Parser \<Rightarrow> Parser" where
  "Skipping skip parser input =
     (case skip input of
        None \<Rightarrow> None
      | Some (_, skipRest, skipOk) \<Rightarrow> parser (if skipOk then skipRest else input))"

definition As :: "string \<Rightarrow> Parser \<Rightarrow> Parser" where
  "As outType parser input =
     (case parser input of
        None \<Rightarrow> None
      | Some (parserNode, parserRest, parserOk) \<Rightarrow>
          Some (Some (Node outType [parserNode] ''''), parserRest, parserOk))"

subsection \<open>The terminals of the grammar\<close>

definition Number :: Parser where
  "Number = Regex ''Number''
     [([(CHR ''-'', CHR ''-'')], Optional), ([(CHR ''0'', CHR ''9'')], Plus)]"

definition Variable :: Parser where
  "Variable = Regex ''Variable''
     [([(CHR ''a'', CHR ''z''), (CHR ''A'', CHR ''Z'')], One),
      ([(CHR ''a'', CHR ''z''), (CHR ''A'', CHR ''Z''), (CHR ''0'', CHR ''9'')], Star)]"

definition ArguementDelimeter :: Parser where
  "ArguementDelimeter = Regex ''ArgumentDelimeter'' [([(CHR '','', CHR '','')], Optional)]"

definition WS :: Parser where
  "WS = Regex Whitespace [([(CHR '' '', CHR '' '')], Star)]"

definition LineDelim :: Parser where
  "LineDelim = Regex Whitespace [([(CHR 0x0A, CHR 0x0A), (CHR '';'', CHR '';'')], Star)]"

subsection \<open>Monotonicity of the combinators in their sub-parsers\<close>

text \<open>
  The rules of the grammar call each other, so the grammar is defined as a fixed point.
  For this, every combinator must be monotone in its sub-parsers: when a sub-parser that
  did not return is replaced by one that returns, a result the combinator had stays. The
  lemmas of this subsection prove it, in the form the fixed point construction uses.
\<close>

definition parser_le :: "Parser \<Rightarrow> Parser \<Rightarrow> bool" where
  "parser_le p q = (\<forall>x r. p x = Some r \<longrightarrow> q x = Some r)"

lemma parser_leD: "parser_le p q \<Longrightarrow> p x = Some r \<Longrightarrow> q x = Some r"
  unfolding parser_le_def by blast

lemma parser_le_mono:
  fixes p :: "('a \<Rightarrow> 'b option) \<Rightarrow> Parser" and f g :: "'a \<Rightarrow> 'b option"
  assumes "\<And>x. mono_option (\<lambda>f. p f x)" and "fun_ord option_ord f g"
  shows "parser_le (p f) (p g)"
  unfolding parser_le_def
proof (intro allI impI)
  fix x r assume "p f x = Some r"
  moreover have "option_ord (p f x) (p g x)"
    using assms(1) [of x] assms(2) unfolding monotone_def by blast
  ultimately show "p g x = Some r" by (simp add: flat_ord_def)
qed

lemma mono_optionI:
  assumes "\<And>f g r. fun_ord option_ord f g \<Longrightarrow> F f = Some r \<Longrightarrow> F g = Some r"
  shows "mono_option F"
proof (rule monotoneI)
  fix f g :: "'a \<Rightarrow> 'b option" assume "fun_ord option_ord f g"
  then show "option_ord (F f) (F g)"
    using assms [of f g] by (cases "F f") (auto simp: flat_ord_def)
qed

lemma Some_for_le:
  assumes "Some_for outType p children rest = Some y" and "parser_le p q"
  shows "Some_for outType q children rest = Some y"
proof -
  have "parser_le p q \<longrightarrow> Some_for outType q children rest = Some y"
  proof (rule Some_for.raw_induct
      [where P = "\<lambda>t p c r y. parser_le p q \<longrightarrow> Some_for t q c r = Some y", OF _ assms(1)],
      goal_cases)
    case (1 Some_for' outType p children rest y)
    show ?case
    proof
      assume le: "parser_le p q"
      from 1(2) obtain n r ok where pr: "p rest = Some (n, r, ok)"
        by (cases "p rest") auto
      with le have qr: "q rest = Some (n, r, ok)" by (rule_tac parser_leD)
      show "Some_for outType q children rest = Some y"
      proof (cases ok)
        case True
        with 1(2) pr have "Some_for' outType p (children @ [n]) r = Some y" by simp
        then have "Some_for outType q (children @ [n]) r = Some y"
          using 1(1) le by blast
        with qr True show ?thesis by (subst Some_for.simps) simp
      next
        case False
        with 1(2) pr qr show ?thesis by (subst Some_for.simps) simp
      qed
    qed
  qed
  with assms(2) show ?thesis by blast
qed

lemma AtLeast_for_le:
  assumes "AtLeast_for outType minimum p num children rest = Some y" and "parser_le p q"
  shows "AtLeast_for outType minimum q num children rest = Some y"
proof -
  have "parser_le p q \<longrightarrow> AtLeast_for outType minimum q num children rest = Some y"
  proof (rule AtLeast_for.raw_induct
      [where P = "\<lambda>t m p k c r y. parser_le p q \<longrightarrow> AtLeast_for t m q k c r = Some y",
        OF _ assms(1)], goal_cases)
    case (1 AtLeast_for' outType minimum p num children rest y)
    show ?case
    proof
      assume le: "parser_le p q"
      from 1(2) obtain n r ok where pr: "p rest = Some (n, r, ok)"
        by (cases "p rest") auto
      with le have qr: "q rest = Some (n, r, ok)" by (rule_tac parser_leD)
      show "AtLeast_for outType minimum q num children rest = Some y"
      proof (cases ok)
        case True
        with 1(2) pr have "AtLeast_for' outType minimum p (num + 1) (children @ [n]) r = Some y"
          by simp
        then have "AtLeast_for outType minimum q (num + 1) (children @ [n]) r = Some y"
          using 1(1) le by blast
        with qr True show ?thesis by (subst AtLeast_for.simps) simp
      next
        case False
        with 1(2) pr qr show ?thesis by (subst AtLeast_for.simps) simp
      qed
    qed
  qed
  with assms(2) show ?thesis by blast
qed

lemma Some_parser_mono [partial_function_mono]:
  assumes "\<And>x. mono_option (\<lambda>f. p f x)"
  shows "mono_option (\<lambda>f. Some_parser outType (p f) input)"
  unfolding Some_parser_def
proof (rule mono_optionI)
  fix f g :: "'a \<Rightarrow> 'b option" and r
  assume "fun_ord option_ord f g" and "Some_for outType (p f) [] input = Some r"
  then show "Some_for outType (p g) [] input = Some r"
    using Some_for_le [of outType "p f" "[]" input r "p g"] parser_le_mono [of p f g, OF assms]
    by blast
qed

lemma AtLeast_mono [partial_function_mono]:
  assumes "\<And>x. mono_option (\<lambda>f. p f x)"
  shows "mono_option (\<lambda>f. AtLeast outType minimum (p f) input)"
  unfolding AtLeast_def
proof (rule mono_optionI)
  fix f g :: "'a \<Rightarrow> 'b option" and r
  assume "fun_ord option_ord f g" and "AtLeast_for outType minimum (p f) 0 [] input = Some r"
  then show "AtLeast_for outType minimum (p g) 0 [] input = Some r"
    using AtLeast_for_le [of outType minimum "p f" 0 "[]" input r "p g"]
      parser_le_mono [of p f g, OF assms] by blast
qed

lemma As_mono [partial_function_mono]:
  assumes "\<And>x. mono_option (\<lambda>f. p f x)"
  shows "mono_option (\<lambda>f. As outType (p f) input)"
proof (rule mono_optionI)
  fix f g :: "'a \<Rightarrow> 'b option" and r
  assume fg: "fun_ord option_ord f g" and *: "As outType (p f) input = Some r"
  from * obtain a where "p f input = Some a" by (cases "p f input") (auto simp: As_def)
  moreover from this have "p g input = Some a"
    using parser_le_mono [OF assms fg] by (rule_tac parser_leD)
  ultimately show "As outType (p g) input = Some r" using * by (simp add: As_def)
qed

lemma Skipping_mono [partial_function_mono]:
  assumes "\<And>x. mono_option (\<lambda>f. skip f x)" and "\<And>x. mono_option (\<lambda>f. p f x)"
  shows "mono_option (\<lambda>f. Skipping (skip f) (p f) input)"
proof (rule mono_optionI)
  fix f g :: "'a \<Rightarrow> 'b option" and r
  assume fg: "fun_ord option_ord f g" and *: "Skipping (skip f) (p f) input = Some r"
  from * obtain a where sa: "skip f input = Some a"
    by (cases "skip f input") (auto simp: Skipping_def)
  then have sb: "skip g input = Some a"
    using parser_le_mono [OF assms(1) fg] by (rule_tac parser_leD)
  obtain n r' ok where a: "a = (n, r', ok)" by (cases a)
  from * sa a have "p f (if ok then r' else input) = Some r" by (simp add: Skipping_def)
  then have "p g (if ok then r' else input) = Some r"
    using parser_le_mono [OF assms(2) fg] by (rule_tac parser_leD)
  with sb a show "Skipping (skip g) (p g) input = Some r" by (simp add: Skipping_def)
qed

lemma Or_le:
  assumes "Or ps input = Some y" and "list_all2 parser_le ps qs"
  shows "Or qs input = Some y"
  using assms(2,1)
proof (induction rule: list_all2_induct)
  case Nil
  then show ?case by simp
next
  case (Cons p ps q qs)
  from Cons.prems obtain n r ok where pr: "p input = Some (n, r, ok)"
    by (cases "p input") auto
  with Cons.hyps(1) have "q input = Some (n, r, ok)" by (rule_tac parser_leD)
  with pr Cons show ?case by (cases ok) auto
qed

lemma Or_Cons_mono [partial_function_mono]:
  assumes "\<And>x. mono_option (\<lambda>f. p f x)" and "\<And>x. mono_option (\<lambda>f. Or (ps f) x)"
  shows "mono_option (\<lambda>f. Or (p f # ps f) input)"
proof (rule mono_optionI)
  fix f g :: "'a \<Rightarrow> 'b option" and y
  assume fg: "fun_ord option_ord f g" and *: "Or (p f # ps f) input = Some y"
  from * obtain n r ok where pr: "p f input = Some (n, r, ok)"
    by (cases "p f input") auto
  then have qr: "p g input = Some (n, r, ok)"
    using parser_le_mono [OF assms(1) fg] by (rule_tac parser_leD)
  show "Or (p g # ps g) input = Some y"
  proof (cases ok)
    case True
    with * pr qr show ?thesis by auto
  next
    case False
    with * pr have "Or (ps f) input = Some y" by simp
    then have "Or (ps g) input = Some y"
      using parser_le_mono [OF assms(2) fg] by (rule_tac parser_leD)
    with False qr show ?thesis by simp
  qed
qed

lemma ThenSkipping_for_Nil_mono [partial_function_mono]:
  "mono_option (\<lambda>f. ThenSkipping_for outType (skip f) [] children rest)"
  by (rule mono_optionI) simp

lemma ThenSkipping_for_Cons_mono [partial_function_mono]:
  assumes "\<And>x. mono_option (\<lambda>f. skip f x)" and "\<And>x. mono_option (\<lambda>f. p f x)"
    and "\<And>c x. mono_option (\<lambda>f. ThenSkipping_for outType (skip f) (ps f) c x)"
  shows "mono_option (\<lambda>f. ThenSkipping_for outType (skip f) (p f # ps f) children rest)"
proof (rule mono_optionI)
  fix f g :: "'a \<Rightarrow> 'b option" and y
  assume fg: "fun_ord option_ord f g"
    and *: "ThenSkipping_for outType (skip f) (p f # ps f) children rest = Some y"
  from * obtain sn sr sok where sf: "skip f rest = Some (sn, sr, sok)"
    by (cases "skip f rest") auto
  then have sg: "skip g rest = Some (sn, sr, sok)"
    using parser_le_mono [OF assms(1) fg] by (rule_tac parser_leD)
  from * sf obtain n r ok where pf: "p f (if sok then sr else rest) = Some (n, r, ok)"
    by (cases "p f (if sok then sr else rest)") auto
  then have pg: "p g (if sok then sr else rest) = Some (n, r, ok)"
    using parser_le_mono [OF assms(2) fg] by (rule_tac parser_leD)
  show "ThenSkipping_for outType (skip g) (p g # ps g) children rest = Some y"
  proof (cases ok)
    case True
    with * sf pf have "ThenSkipping_for outType (skip f) (ps f) (children @ [n]) r = Some y"
      by simp
    moreover have "option_ord (ThenSkipping_for outType (skip f) (ps f) (children @ [n]) r)
        (ThenSkipping_for outType (skip g) (ps g) (children @ [n]) r)"
      using assms(3) [of "children @ [n]" r] fg unfolding monotone_def by blast
    ultimately have "ThenSkipping_for outType (skip g) (ps g) (children @ [n]) r = Some y"
      by (simp add: flat_ord_def)
    with True sg pg show ?thesis by simp
  next
    case False
    with * sf pf sg pg show ?thesis by simp
  qed
qed

lemma ThenSkipping_mono [partial_function_mono]:
  assumes "\<And>c x. mono_option (\<lambda>f. ThenSkipping_for outType (skip f) (ps f) c x)"
  shows "mono_option (\<lambda>f. ThenSkipping outType (skip f) (ps f) input)"
  unfolding ThenSkipping_def by (rule assms)

lemma Then_for_Cons_mono [partial_function_mono]:
  assumes "\<And>x. mono_option (\<lambda>f. p f x)"
    and "\<And>c x. mono_option (\<lambda>f. Then_for outType (ps f) c x)"
  shows "mono_option (\<lambda>f. Then_for outType (p f # ps f) children rest)"
proof (rule mono_optionI)
  fix f g :: "'a \<Rightarrow> 'b option" and y
  assume fg: "fun_ord option_ord f g"
    and *: "Then_for outType (p f # ps f) children rest = Some y"
  from * obtain n r ok where pf: "p f rest = Some (n, r, ok)"
    by (cases "p f rest") auto
  then have pg: "p g rest = Some (n, r, ok)"
    using parser_le_mono [OF assms(1) fg] by (rule_tac parser_leD)
  show "Then_for outType (p g # ps g) children rest = Some y"
  proof (cases ok)
    case True
    with * pf have "Then_for outType (ps f) (children @ [n]) r = Some y" by simp
    moreover have "option_ord (Then_for outType (ps f) (children @ [n]) r)
        (Then_for outType (ps g) (children @ [n]) r)"
      using assms(2) [of "children @ [n]" r] fg unfolding monotone_def by blast
    ultimately have "Then_for outType (ps g) (children @ [n]) r = Some y"
      by (simp add: flat_ord_def)
    with True pg show ?thesis by simp
  next
    case False
    with * pf pg show ?thesis by simp
  qed
qed

lemma Then_mono [partial_function_mono]:
  assumes "\<And>c x. mono_option (\<lambda>f. Then_for outType (ps f) c x)"
  shows "mono_option (\<lambda>f. Then outType (ps f) input)"
  unfolding Then_def by (rule assms)

section \<open>The grammar\<close>

text \<open>
  \<open>Expression\<close>, \<open>Sum\<close>, \<open>Multiplication\<close>, \<open>Unit\<close> and \<open>FunctionCall\<close> are mutually
  recursive functions of the source. \<open>grammar\<close> is their common fixed point, one case
  for each function, with the body of that function; a call that does not return is
  \<open>None\<close>. The five parsers are its instances, and the lemmas \<open>Expression_unfold\<close> to
  \<open>FunctionCall_unfold\<close> below state each of them as the source writes it.
  \<open>Unit\<close> of the source is \<open>Unit_parser\<close> here.
\<close>

datatype Rule = Expression_rule | Sum_rule | Multiplication_rule | Unit_rule | FunctionCall_rule

partial_function (option) grammar :: "Rule \<Rightarrow> string \<Rightarrow> Result option" where
  "grammar rule input =
     (case rule of
        Expression_rule \<Rightarrow> As ''Expression'' (grammar Sum_rule) input
      | Sum_rule \<Rightarrow>
          Or [ThenSkipping ''Sum'' WS
                [grammar Multiplication_rule,
                 AtLeast ''Terms'' 1 (ThenSkipping ''Term'' WS
                   [Or [As ''OpAdd'' (Character CHR ''+''), As ''OpMinus'' (Character CHR ''-'')],
                    grammar Multiplication_rule])],
              Skipping WS (grammar Multiplication_rule)] input
      | Multiplication_rule \<Rightarrow>
          Or [ThenSkipping ''Multiplication'' WS
                [grammar Unit_rule,
                 AtLeast ''Terms'' 1 (ThenSkipping ''Term'' WS
                   [Or [As ''OpMult'' (Character CHR ''*''), As ''OpDiv'' (Character CHR ''/'')],
                    grammar Unit_rule])],
              Skipping WS (grammar Unit_rule)] input
      | Unit_rule \<Rightarrow>
          Or [ThenSkipping ''Unit'' WS
                [Character CHR ''('',
                 grammar Expression_rule,
                 Character CHR '')''],
              Skipping WS (grammar FunctionCall_rule),
              Skipping WS Variable,
              Skipping WS Number] input
      | FunctionCall_rule \<Rightarrow>
          ThenSkipping ''FunctionCall'' WS
            [Variable,
             Character CHR ''('',
             Some_parser ''Arguments'' (ThenSkipping ''Argument'' WS
               [grammar Expression_rule,
                ArguementDelimeter]),
             Character CHR '')''] input)"

declare grammar.simps [code]

definition Expression :: Parser where "Expression = grammar Expression_rule"
definition Sum :: Parser where "Sum = grammar Sum_rule"
definition Multiplication :: Parser where "Multiplication = grammar Multiplication_rule"
definition Unit_parser :: Parser where "Unit_parser = grammar Unit_rule"
definition FunctionCall :: Parser where "FunctionCall = grammar FunctionCall_rule"

definition VariableDeclaration :: Parser where
  "VariableDeclaration input =
     ThenSkipping ''VariableDeclaration'' WS
       [Variable,
        Character CHR ''='',
        Expression] input"

definition FunctionDeclaration :: Parser where
  "FunctionDeclaration input =
     ThenSkipping ''FunctionDeclaration'' WS
       [Variable,
        Character CHR ''('',
        Some_parser ''Parameters'' (ThenSkipping ''Parameter'' WS
          [Variable,
           ArguementDelimeter]),
        Character CHR '')'',
        Character CHR ''='',
        Expression] input"

definition Declaration :: Parser where
  "Declaration input =
     Or [VariableDeclaration,
         FunctionDeclaration] input"

definition Program :: Parser where
  "Program input =
     Some_parser ''Lines''
       (ThenSkipping ''Line'' WS
          [Or [Declaration,
               Expression],
           LineDelim]) input"

lemma Expression_unfold: "Expression input = As ''Expression'' Sum input"
  unfolding Expression_def Sum_def by (subst grammar.simps) simp

lemma Sum_unfold:
  "Sum input =
     Or [ThenSkipping ''Sum'' WS
           [Multiplication,
            AtLeast ''Terms'' 1 (ThenSkipping ''Term'' WS
              [Or [As ''OpAdd'' (Character CHR ''+''), As ''OpMinus'' (Character CHR ''-'')],
               Multiplication])],
         Skipping WS Multiplication] input"
  unfolding Sum_def Multiplication_def by (subst grammar.simps) simp

lemma Multiplication_unfold:
  "Multiplication input =
     Or [ThenSkipping ''Multiplication'' WS
           [Unit_parser,
            AtLeast ''Terms'' 1 (ThenSkipping ''Term'' WS
              [Or [As ''OpMult'' (Character CHR ''*''), As ''OpDiv'' (Character CHR ''/'')],
               Unit_parser])],
         Skipping WS Unit_parser] input"
  unfolding Multiplication_def Unit_parser_def by (subst grammar.simps) simp

lemma Unit_unfold:
  "Unit_parser input =
     Or [ThenSkipping ''Unit'' WS
           [Character CHR ''('',
            Expression,
            Character CHR '')''],
         Skipping WS FunctionCall,
         Skipping WS Variable,
         Skipping WS Number] input"
  unfolding Unit_parser_def Expression_def FunctionCall_def by (subst grammar.simps) simp

lemma FunctionCall_unfold:
  "FunctionCall input =
     ThenSkipping ''FunctionCall'' WS
       [Variable,
        Character CHR ''('',
        Some_parser ''Arguments'' (ThenSkipping ''Argument'' WS
          [Expression,
           ArguementDelimeter]),
        Character CHR '')''] input"
  unfolding FunctionCall_def Expression_def by (subst grammar.simps) simp

section \<open>The numbers of the evaluator\<close>

text \<open>
  The evaluator computes with \<open>float64\<close>, the binary64 format of IEEE 754: a number is
  finite (a sign, \<open>True\<close> for minus, a significand \<open>m\<close> and an exponent \<open>e\<close>, for the value
  \<open>\<plusminus> m * 2^e\<close> with \<open>0 \<le> m < 2^53\<close>, \<open>- 1074 \<le> e \<le> 971\<close>, and \<open>2^52 \<le> m\<close> unless
  \<open>e = - 1074\<close>), an infinity with its sign, or not a number. The two zeros are
  \<open>zero64 False\<close> and \<open>zero64 True\<close>. The four operations round the exact result to the nearest number of the
  format, to the even significand on a tie, and overflow to an infinity.
  \<open>round_ratio s n d\<close> rounds the exact quotient \<open>n / d\<close> of two integers, with sign \<open>s\<close>.
\<close>

datatype float64 = Finite bool int int | Infinity bool | NaN

function bit_length :: "int \<Rightarrow> int" where
  "bit_length n = (if n \<le> 0 then 0 else bit_length (n div 2) + 1)"
  by pat_completeness auto
termination
  by (relation "measure nat") auto

declare bit_length.simps [simp del]

definition zero64 :: "bool \<Rightarrow> float64" where
  "zero64 s = Finite s 0 (- 1074)"

definition round_half_even :: "int \<Rightarrow> int \<Rightarrow> int" where
  "round_half_even n d =
     (let q = n div d; r = n mod d
      in if 2 * r < d then q
         else if 2 * r > d then q + 1
         else if even q then q else q + 1)"

definition floor_log2 :: "int \<Rightarrow> int \<Rightarrow> int" where
  "floor_log2 n d =
     (let k0 = bit_length n - bit_length d
      in if (if k0 \<ge> 0 then n \<ge> d * 2 ^ nat k0 else n * 2 ^ nat (- k0) \<ge> d)
         then k0 else k0 - 1)"

definition round_ratio :: "bool \<Rightarrow> int \<Rightarrow> int \<Rightarrow> float64" where
  "round_ratio s n d =
     (if n = 0 then zero64 s
      else
        let e = max (floor_log2 n d - 52) (- 1074);
            m = (if e \<ge> 0 then round_half_even n (d * 2 ^ nat e)
                 else round_half_even (n * 2 ^ nat (- e)) d);
            (m', e') = (if m = 2 ^ 53 then (2 ^ 52, e + 1) else (m, e))
        in if e' > 971 then Infinity s else Finite s m' e')"

definition round_scaled :: "bool \<Rightarrow> int \<Rightarrow> int \<Rightarrow> float64" where
  "round_scaled s m e =
     (if e \<ge> 0 then round_ratio s (m * 2 ^ nat e) 1 else round_ratio s m (2 ^ nat (- e)))"

definition float64_of_int :: "int \<Rightarrow> float64" where
  "float64_of_int z = round_ratio (z < 0) \<bar>z\<bar> 1"

fun neg64 :: "float64 \<Rightarrow> float64" where
  "neg64 (Finite s m e) = Finite (\<not> s) m e"
| "neg64 (Infinity s) = Infinity (\<not> s)"
| "neg64 NaN = NaN"

fun add64 :: "float64 \<Rightarrow> float64 \<Rightarrow> float64" where
  "add64 NaN y = NaN"
| "add64 x NaN = NaN"
| "add64 (Infinity s) (Infinity t) = (if s = t then Infinity s else NaN)"
| "add64 (Infinity s) (Finite t m e) = Infinity s"
| "add64 (Finite s m e) (Infinity t) = Infinity t"
| "add64 (Finite s1 m1 e1) (Finite s2 m2 e2) =
     (let e0 = min e1 e2;
          a = (if s1 then - 1 else 1) * m1 * 2 ^ nat (e1 - e0);
          b = (if s2 then - 1 else 1) * m2 * 2 ^ nat (e2 - e0);
          c = a + b
      in if c = 0 then zero64 (s1 \<and> s2)
         else round_scaled (c < 0) \<bar>c\<bar> e0)"

definition sub64 :: "float64 \<Rightarrow> float64 \<Rightarrow> float64" where
  "sub64 x y = add64 x (neg64 y)"

fun mul64 :: "float64 \<Rightarrow> float64 \<Rightarrow> float64" where
  "mul64 NaN y = NaN"
| "mul64 x NaN = NaN"
| "mul64 (Infinity s) (Infinity t) = Infinity (s \<noteq> t)"
| "mul64 (Infinity s) (Finite t m e) = (if m = 0 then NaN else Infinity (s \<noteq> t))"
| "mul64 (Finite s m e) (Infinity t) = (if m = 0 then NaN else Infinity (s \<noteq> t))"
| "mul64 (Finite s1 m1 e1) (Finite s2 m2 e2) = round_scaled (s1 \<noteq> s2) (m1 * m2) (e1 + e2)"

fun div64 :: "float64 \<Rightarrow> float64 \<Rightarrow> float64" where
  "div64 NaN y = NaN"
| "div64 x NaN = NaN"
| "div64 (Infinity s) (Infinity t) = NaN"
| "div64 (Infinity s) (Finite t m e) = Infinity (s \<noteq> t)"
| "div64 (Finite s m e) (Infinity t) = zero64 (s \<noteq> t)"
| "div64 (Finite s1 m1 e1) (Finite s2 m2 e2) =
     (if m2 = 0 then (if m1 = 0 then NaN else Infinity (s1 \<noteq> s2))
      else if e1 \<ge> e2 then round_ratio (s1 \<noteq> s2) (m1 * 2 ^ nat (e1 - e2)) m2
      else round_ratio (s1 \<noteq> s2) m1 (m2 * 2 ^ nat (e2 - e1)))"

text \<open>
  Some values of the format: the number one, the quotient \<open>1 / 3\<close> (the bits
  \<open>0x3FD5555555555555\<close>), a tie that rounds to the even significand, an overflow, and
  the sign of an exact zero sum.
\<close>

lemma float64_one: "float64_of_int 1 = Finite False 4503599627370496 (- 52)"
  by code_simp

lemma float64_third:
  "div64 (float64_of_int 1) (float64_of_int 3) = Finite False 6004799503160661 (- 54)"
  by code_simp

lemma float64_tie_to_even: "float64_of_int 9007199254740993 = float64_of_int 9007199254740992"
  by code_simp

lemma float64_overflow:
  "mul64 (Finite False 9007199254740991 971) (float64_of_int 2) = Infinity False"
  by code_simp

lemma float64_zero_sum: "sub64 (float64_of_int 7) (float64_of_int 7) = zero64 False"
  by code_simp

subsection \<open>Number literals\<close>

text \<open>
  \<open>strconv.ParseFloat\<close> of the library returns the nearest \<open>float64\<close> of a decimal
  literal, an infinity when the literal is too large, and the evaluator drops the error
  it returns beside the number. The grammar produces \<open>Number\<close> nodes from the pattern
  \<^verbatim>\<open>-?[0-9]+\<close> only, and \<open>ParseFloat\<close> is modelled on these literals: an optional minus
  sign and one or more decimal digits. For any other text (the library reads fractions,
  exponents, hexadecimal literals, Inf and NaN as well) the model has no result, \<open>None\<close>,
  and the evaluator reports \<open>NumberOutsideModel\<close>: this is a limit of the model, not
  a failure of the program.
\<close>

fun digits_value :: "string \<Rightarrow> int \<Rightarrow> int option" where
  "digits_value [] acc = Some acc"
| "digits_value (c # cs) acc =
     (if CHR ''0'' \<le> c \<and> c \<le> CHR ''9''
      then digits_value cs (10 * acc + (of_char c - 48))
      else None)"

definition ParseFloat :: "string \<Rightarrow> float64 option" where
  "ParseFloat s =
     (case s of
        [] \<Rightarrow> None
      | c # cs \<Rightarrow>
          if c = CHR ''-''
          then (if cs = [] then None
                else map_option (\<lambda>n. round_ratio True n 1) (digits_value cs 0))
          else map_option (\<lambda>n. round_ratio False n 1) (digits_value s 0))"

section \<open>The evaluator\<close>

text \<open>
  The source panics where it reads a field of a nil node or indexes a slice out of range;
  these are the errors of the model. A map of Go is a reference: \<open>Memory\<close> holds the
  address of its variable map, and the \<open>Store\<close> holds the maps, so that a write through
  one \<open>Memory\<close> is seen through every \<open>Memory\<close> with the same address. \<open>make\<close> allocates
  the next address. The evaluator never writes to the function map, which is therefore
  a plain value. Reading a key a map does not have gives the zero value: the number
  \<open>+0\<close> for a variable, and for a function the \<open>MemoryFunction\<close> with no parameters and a
  nil expression.
\<close>

datatype error = NilPointerDereference | IndexOutOfRange | NumberOutsideModel

type_synonym VariableMap = "string \<rightharpoonup> float64"
type_synonym Store = "VariableMap list"

record MemoryFunction =
  Parameters :: "string list"
  FunctionExpression :: "Node option"

record Memory =
  Variables :: nat
  Functions :: "string \<rightharpoonup> MemoryFunction"

type_synonym EvalResult = "(error + float64 \<times> Store) option"
type_synonym Evaluator = "Node option \<Rightarrow> Memory \<Rightarrow> Store \<Rightarrow> EvalResult"

definition index :: "'a list \<Rightarrow> nat \<Rightarrow> error + 'a" where
  "index xs i = (if i < length xs then Inr (xs ! i) else Inl IndexOutOfRange)"

definition Type_of :: "Node option \<Rightarrow> error + string" where
  "Type_of node =
     (case node of None \<Rightarrow> Inl NilPointerDereference | Some nd \<Rightarrow> Inr (Type nd))"

definition Value_of :: "Node option \<Rightarrow> error + string" where
  "Value_of node =
     (case node of None \<Rightarrow> Inl NilPointerDereference | Some nd \<Rightarrow> Inr (Value nd))"

definition Children_of :: "Node option \<Rightarrow> error + Node option list" where
  "Children_of node =
     (case node of None \<Rightarrow> Inl NilPointerDereference | Some nd \<Rightarrow> Inr (Children nd))"

definition child :: "Node option \<Rightarrow> nat \<Rightarrow> error + Node option" where
  "child node i =
     (case node of None \<Rightarrow> Inl NilPointerDereference | Some nd \<Rightarrow> index (Children nd) i)"

definition map_read :: "VariableMap \<Rightarrow> string \<Rightarrow> float64" where
  "map_read m name = (case m name of None \<Rightarrow> zero64 False | Some v \<Rightarrow> v)"

definition map_at :: "Store \<Rightarrow> nat \<Rightarrow> VariableMap" where
  "map_at store a = (if a < length store then store ! a else Map.empty)"

definition function_of :: "Memory \<Rightarrow> string \<Rightarrow> MemoryFunction" where
  "function_of memory name =
     (case Functions memory name of
        None \<Rightarrow> \<lparr>Parameters = [], FunctionExpression = None\<rparr>
      | Some function \<Rightarrow> function)"

text \<open>
  \<open>bind_result\<close> continues with the value of a call that returned without a panic; a
  panic, and a call that does not return, end the evaluation.
\<close>

definition bind_result ::
  "(error + 'a) option \<Rightarrow> ('a \<Rightarrow> (error + 'b) option) \<Rightarrow> (error + 'b) option" where
  "bind_result r k =
     (case r of
        None \<Rightarrow> None
      | Some (Inl e) \<Rightarrow> Some (Inl e)
      | Some (Inr x) \<Rightarrow> k x)"

text \<open>
  The three loops of \<open>Eval\<close>: over the terms of a \<open>Sum\<close>, over the terms of a
  \<open>Multiplication\<close>, and over the arguments of a \<open>FunctionCall\<close>. Each takes the
  evaluator it calls on the operands as its first argument.
\<close>

fun Sum_for ::
  "Evaluator \<Rightarrow> Node option list \<Rightarrow> Memory \<Rightarrow> float64 \<Rightarrow> Store \<Rightarrow> EvalResult" where
  "Sum_for eval [] memory number store = Some (Inr (number, store))"
| "Sum_for eval (sum_term # sums) memory number store =
     (case child sum_term 0 of
        Inl e \<Rightarrow> Some (Inl e)
      | Inr operator \<Rightarrow>
     (case Type_of operator of
        Inl e \<Rightarrow> Some (Inl e)
      | Inr t \<Rightarrow>
     (case child sum_term 1 of
        Inl e \<Rightarrow> Some (Inl e)
      | Inr operand \<Rightarrow>
     bind_result (eval operand memory store) (\<lambda>(v, store1).
       Sum_for eval sums memory
         (if t = ''OpAdd'' then add64 number v else sub64 number v) store1))))"

fun Multiplication_for ::
  "Evaluator \<Rightarrow> Node option list \<Rightarrow> Memory \<Rightarrow> float64 \<Rightarrow> Store \<Rightarrow> EvalResult" where
  "Multiplication_for eval [] memory number store = Some (Inr (number, store))"
| "Multiplication_for eval (mult_term # mults) memory number store =
     (case child mult_term 0 of
        Inl e \<Rightarrow> Some (Inl e)
      | Inr operator \<Rightarrow>
     (case Type_of operator of
        Inl e \<Rightarrow> Some (Inl e)
      | Inr t \<Rightarrow>
     (case child mult_term 1 of
        Inl e \<Rightarrow> Some (Inl e)
      | Inr operand \<Rightarrow>
     bind_result (eval operand memory store) (\<lambda>(v, store1).
       Multiplication_for eval mults memory
         (if t = ''OpMult'' then mul64 number v else div64 number v) store1))))"

fun Arguments_for ::
  "Evaluator \<Rightarrow> Node option list \<Rightarrow> Memory \<Rightarrow> float64 list \<Rightarrow> Store
     \<Rightarrow> (error + float64 list \<times> Store) option" where
  "Arguments_for eval [] memory arguments store = Some (Inr (arguments, store))"
| "Arguments_for eval (argument # rest) memory arguments store =
     (case child argument 0 of
        Inl e \<Rightarrow> Some (Inl e)
      | Inr expression \<Rightarrow>
     bind_result (eval expression memory store) (\<lambda>(v, store1).
       Arguments_for eval rest memory (arguments @ [v]) store1))"

fun bind_parameters :: "string list \<Rightarrow> float64 list \<Rightarrow> VariableMap \<Rightarrow> VariableMap" where
  "bind_parameters (parameter # parameters) (argument # arguments) variableCopy =
     bind_parameters parameters arguments (variableCopy(parameter \<mapsto> argument))"
| "bind_parameters parameters arguments variableCopy = variableCopy"

subsection \<open>Monotonicity of the loops in the evaluator they call\<close>

definition eval_le :: "Evaluator \<Rightarrow> Evaluator \<Rightarrow> bool" where
  "eval_le e1 e2 = (\<forall>n m s r. e1 n m s = Some r \<longrightarrow> e2 n m s = Some r)"

lemma eval_leD: "eval_le e1 e2 \<Longrightarrow> e1 n m s = Some r \<Longrightarrow> e2 n m s = Some r"
  unfolding eval_le_def by blast

lemma eval_le_mono:
  fixes ev :: "('a \<Rightarrow> 'b option) \<Rightarrow> Evaluator" and f g :: "'a \<Rightarrow> 'b option"
  assumes "\<And>n m s. mono_option (\<lambda>f. ev f n m s)" and "fun_ord option_ord f g"
  shows "eval_le (ev f) (ev g)"
  unfolding eval_le_def
proof (intro allI impI)
  fix n m s r assume "ev f n m s = Some r"
  moreover have "option_ord (ev f n m s) (ev g n m s)"
    using assms(1) [of n m s] assms(2) unfolding monotone_def by blast
  ultimately show "ev g n m s = Some r" by (simp add: flat_ord_def)
qed

lemma bind_result_le:
  assumes "bind_result a k1 = Some r" and "\<And>x. k1 x = Some r \<Longrightarrow> k2 x = Some r"
  shows "bind_result a k2 = Some r"
  using assms by (auto simp: bind_result_def split: option.splits sum.splits)

lemma bind_result_mono [partial_function_mono]:
  assumes "mono_option B" and "\<And>y. mono_option (\<lambda>f. C y f)"
  shows "mono_option (\<lambda>f. bind_result (B f) (\<lambda>y. C y f))"
proof (rule mono_optionI)
  fix f g :: "'a \<Rightarrow> 'b option" and r
  assume fg: "fun_ord option_ord f g" and *: "bind_result (B f) (\<lambda>y. C y f) = Some r"
  from * obtain a where a: "B f = Some a" by (cases "B f") (auto simp: bind_result_def)
  have "option_ord (B f) (B g)" using assms(1) fg unfolding monotone_def by blast
  with a have b: "B g = Some a" by (simp add: flat_ord_def)
  have "\<And>x. C x f = Some r \<Longrightarrow> C x g = Some r"
  proof -
    fix x assume "C x f = Some r"
    moreover have "option_ord (C x f) (C x g)"
      using assms(2) [of x] fg unfolding monotone_def by blast
    ultimately show "C x g = Some r" by (simp add: flat_ord_def)
  qed
  with * a b show "bind_result (B g) (\<lambda>y. C y g) = Some r"
    using bind_result_le [of "Some a" "\<lambda>y. C y f" r "\<lambda>y. C y g"] by simp
qed

lemma bind_result_eval_le:
  assumes "eval_le e1 e2" and "bind_result (e1 n m s) k1 = Some r"
    and "\<And>x. k1 x = Some r \<Longrightarrow> k2 x = Some r"
  shows "bind_result (e2 n m s) k2 = Some r"
proof -
  from assms(2) obtain a where a: "e1 n m s = Some a"
    by (cases "e1 n m s") (auto simp: bind_result_def)
  with assms(1) have "e2 n m s = Some a" by (rule_tac eval_leD)
  with a assms(2,3) show ?thesis
    using bind_result_le [of "Some a" k1 r k2] by simp
qed

lemma Sum_for_le:
  "eval_le e1 e2 \<Longrightarrow> Sum_for e1 sums memory number store = Some r
    \<Longrightarrow> Sum_for e2 sums memory number store = Some r"
proof (induction sums arbitrary: number store)
  case Nil
  then show ?case by simp
next
  case (Cons sum_term sums)
  from Cons.prems(2) show ?case
    by (auto split: sum.splits
        elim!: bind_result_eval_le [OF Cons.prems(1)] intro: Cons.IH [OF Cons.prems(1)])
qed

lemma Multiplication_for_le:
  "eval_le e1 e2 \<Longrightarrow> Multiplication_for e1 mults memory number store = Some r
    \<Longrightarrow> Multiplication_for e2 mults memory number store = Some r"
proof (induction mults arbitrary: number store)
  case Nil
  then show ?case by simp
next
  case (Cons mult_term mults)
  from Cons.prems(2) show ?case
    by (auto split: sum.splits
        elim!: bind_result_eval_le [OF Cons.prems(1)] intro: Cons.IH [OF Cons.prems(1)])
qed

lemma Arguments_for_le:
  "eval_le e1 e2 \<Longrightarrow> Arguments_for e1 args memory arguments store = Some r
    \<Longrightarrow> Arguments_for e2 args memory arguments store = Some r"
proof (induction args arbitrary: arguments store)
  case Nil
  then show ?case by simp
next
  case (Cons argument args)
  from Cons.prems(2) show ?case
    by (auto split: sum.splits
        elim!: bind_result_eval_le [OF Cons.prems(1)] intro: Cons.IH [OF Cons.prems(1)])
qed

lemma Sum_for_mono [partial_function_mono]:
  assumes "\<And>n m s. mono_option (\<lambda>f. ev f n m s)"
  shows "mono_option (\<lambda>f. Sum_for (ev f) sums memory number store)"
proof (rule mono_optionI)
  fix f g :: "'a \<Rightarrow> 'b option" and r
  assume "fun_ord option_ord f g" and "Sum_for (ev f) sums memory number store = Some r"
  then show "Sum_for (ev g) sums memory number store = Some r"
    using Sum_for_le [of "ev f" "ev g"] eval_le_mono [of ev f g, OF assms] by blast
qed

lemma Multiplication_for_mono [partial_function_mono]:
  assumes "\<And>n m s. mono_option (\<lambda>f. ev f n m s)"
  shows "mono_option (\<lambda>f. Multiplication_for (ev f) mults memory number store)"
proof (rule mono_optionI)
  fix f g :: "'a \<Rightarrow> 'b option" and r
  assume "fun_ord option_ord f g"
    and "Multiplication_for (ev f) mults memory number store = Some r"
  then show "Multiplication_for (ev g) mults memory number store = Some r"
    using Multiplication_for_le [of "ev f" "ev g"] eval_le_mono [of ev f g, OF assms] by blast
qed

lemma Arguments_for_mono [partial_function_mono]:
  assumes "\<And>n m s. mono_option (\<lambda>f. ev f n m s)"
  shows "mono_option (\<lambda>f. Arguments_for (ev f) args memory arguments store)"
proof (rule mono_optionI)
  fix f g :: "'a \<Rightarrow> 'b option" and r
  assume "fun_ord option_ord f g"
    and "Arguments_for (ev f) args memory arguments store = Some r"
  then show "Arguments_for (ev g) args memory arguments store = Some r"
    using Arguments_for_le [of "ev f" "ev g"] eval_le_mono [of ev f g, OF assms] by blast
qed

subsection \<open>Eval\<close>

text \<open>
  \<open>Eval\<close> follows the \<open>switch\<close> of the source case by case, in the order in which the
  source reads the children, so that the first panic of the source is the error of the
  model. A function may call itself without end, so \<open>Eval\<close> is a fixed point as well,
  and \<open>None\<close> is an evaluation that does not return (the model puts no bound on the
  depth of the recursion, where a run of the program ends when its stack is exhausted).
  In a \<open>FunctionCall\<close> the arguments are evaluated in the memory of the caller; then
  \<open>make\<close> allocates a new map at the address \<open>length store1\<close>, the loop over the map of
  the caller copies every entry into it, the next loop binds the parameters, and the
  body is evaluated in \<open>scopeMemory\<close>: the new map and the function map of the caller.
\<close>

partial_function (option) Eval :: "Node option \<Rightarrow> Memory \<Rightarrow> Store \<Rightarrow> EvalResult" where
  "Eval node memory store =
     (case node of
        None \<Rightarrow> Some (Inl NilPointerDereference)
      | Some nd \<Rightarrow>
          if Type nd = ''Expression'' then
            (case index (Children nd) 0 of
               Inl e \<Rightarrow> Some (Inl e)
             | Inr c0 \<Rightarrow> Eval c0 memory store)
          else if Type nd = ''Sum'' then
            (case index (Children nd) 0 of
               Inl e \<Rightarrow> Some (Inl e)
             | Inr c0 \<Rightarrow>
            bind_result (Eval c0 memory store) (\<lambda>(number, store1).
            (case index (Children nd) 1 of
               Inl e \<Rightarrow> Some (Inl e)
             | Inr c1 \<Rightarrow>
            (case Children_of c1 of
               Inl e \<Rightarrow> Some (Inl e)
             | Inr sums \<Rightarrow> Sum_for Eval sums memory number store1))))
          else if Type nd = ''Multiplication'' then
            (case index (Children nd) 0 of
               Inl e \<Rightarrow> Some (Inl e)
             | Inr c0 \<Rightarrow>
            bind_result (Eval c0 memory store) (\<lambda>(number, store1).
            (case index (Children nd) 1 of
               Inl e \<Rightarrow> Some (Inl e)
             | Inr c1 \<Rightarrow>
            (case Children_of c1 of
               Inl e \<Rightarrow> Some (Inl e)
             | Inr mults \<Rightarrow> Multiplication_for Eval mults memory number store1))))
          else if Type nd = ''Unit'' then
            (case index (Children nd) 1 of
               Inl e \<Rightarrow> Some (Inl e)
             | Inr c1 \<Rightarrow> Eval c1 memory store)
          else if Type nd = ''Number'' then
            (case ParseFloat (Value nd) of
               None \<Rightarrow> Some (Inl NumberOutsideModel)
             | Some number \<Rightarrow> Some (Inr (number, store)))
          else if Type nd = ''Variable'' then
            Some (Inr (map_read (map_at store (Variables memory)) (Value nd), store))
          else if Type nd = ''FunctionCall'' then
            (case index (Children nd) 0 of
               Inl e \<Rightarrow> Some (Inl e)
             | Inr c0 \<Rightarrow>
            (case Value_of c0 of
               Inl e \<Rightarrow> Some (Inl e)
             | Inr name \<Rightarrow>
            (case index (Children nd) 2 of
               Inl e \<Rightarrow> Some (Inl e)
             | Inr c2 \<Rightarrow>
            (case Children_of c2 of
               Inl e \<Rightarrow> Some (Inl e)
             | Inr args \<Rightarrow>
            bind_result (Arguments_for Eval args memory [] store) (\<lambda>(arguments, store1).
              Eval (FunctionExpression (function_of memory name))
                \<lparr>Variables = length store1, Functions = Functions memory\<rparr>
                (store1 @ [bind_parameters (Parameters (function_of memory name)) arguments
                             (map_at store1 (Variables memory))]))))))
          else Some (Inr (zero64 False, store)))"

declare Eval.simps [code]

text \<open>
  \<open>extends_store eval\<close>: whenever the evaluator returns a number, the store it returns
  is the store it was given, followed by the maps allocated in between.
\<close>

definition extends_store :: "Evaluator \<Rightarrow> bool" where
  "extends_store eval =
     (\<forall>node memory store v store'.
        eval node memory store = Some (Inr (v, store')) \<longrightarrow> (\<exists>ext. store' = store @ ext))"

section \<open>Running a program\<close>

text \<open>
  \<open>Exec\<close> prints one line for a variable declaration (the name, \<open>=\<close> and the value read
  back from the map) and one for an expression (its value). The printed lines are the
  \<open>Output\<close> of the model; a panic of \<open>Eval\<close> ends the run after the lines printed so far.
  \<open>Exec\<close> makes the two maps of its \<open>Memory\<close> first: the variable map is at address 0 of
  the store.
\<close>

datatype Output = Println_assignment string float64 | Println_value float64

type_synonym ExecResult = "(Output list \<times> error option) option"

fun Parameters_for :: "Node option list \<Rightarrow> string list \<Rightarrow> error + string list" where
  "Parameters_for [] parameters = Inr parameters"
| "Parameters_for (parameter # rest) parameters =
     (case child parameter 0 of
        Inl e \<Rightarrow> Inl e
      | Inr variable \<Rightarrow>
     (case Value_of variable of
        Inl e \<Rightarrow> Inl e
      | Inr name \<Rightarrow> Parameters_for rest (parameters @ [name])))"

fun Exec_for :: "Node option list \<Rightarrow> Memory \<Rightarrow> Store \<Rightarrow> Output list \<Rightarrow> ExecResult" where
  "Exec_for [] memory store out = Some (out, None)"
| "Exec_for (node # nodes) memory store out =
     (case child node 0 of
        Inl e \<Rightarrow> Some (out, Some e)
      | Inr line \<Rightarrow>
     (case Type_of line of
        Inl e \<Rightarrow> Some (out, Some e)
      | Inr t \<Rightarrow>
          if t = ''VariableDeclaration'' then
            (case child line 0 of
               Inl e \<Rightarrow> Some (out, Some e)
             | Inr c0 \<Rightarrow>
            (case Value_of c0 of
               Inl e \<Rightarrow> Some (out, Some e)
             | Inr name \<Rightarrow>
            (case child line 2 of
               Inl e \<Rightarrow> Some (out, Some e)
             | Inr c2 \<Rightarrow>
            (case Eval c2 memory store of
               None \<Rightarrow> None
             | Some (Inl e) \<Rightarrow> Some (out, Some e)
             | Some (Inr (v, store1)) \<Rightarrow>
                 (let store2 = store1[Variables memory :=
                                 (map_at store1 (Variables memory))(name \<mapsto> v)]
                  in Exec_for nodes memory store2
                       (out @ [Println_assignment name
                                 (map_read (map_at store2 (Variables memory)) name)]))))))
          else if t = ''Expression'' then
            (case Eval line memory store of
               None \<Rightarrow> None
             | Some (Inl e) \<Rightarrow> Some (out, Some e)
             | Some (Inr (v, store1)) \<Rightarrow>
                 Exec_for nodes memory store1 (out @ [Println_value v]))
          else if t = ''FunctionDeclaration'' then
            (case child line 2 of
               Inl e \<Rightarrow> Some (out, Some e)
             | Inr c2 \<Rightarrow>
            (case Children_of c2 of
               Inl e \<Rightarrow> Some (out, Some e)
             | Inr parameterNodes \<Rightarrow>
            (case Parameters_for parameterNodes [] of
               Inl e \<Rightarrow> Some (out, Some e)
             | Inr parameters \<Rightarrow>
            (case child line 0 of
               Inl e \<Rightarrow> Some (out, Some e)
             | Inr c0 \<Rightarrow>
            (case Value_of c0 of
               Inl e \<Rightarrow> Some (out, Some e)
             | Inr name \<Rightarrow>
            (case child line 5 of
               Inl e \<Rightarrow> Some (out, Some e)
             | Inr c5 \<Rightarrow>
                 Exec_for nodes
                   (memory\<lparr>Functions := (Functions memory)(name \<mapsto>
                      \<lparr>Parameters = parameters, FunctionExpression = c5\<rparr>)\<rparr>)
                   store out))))))
          else Exec_for nodes memory store out))"

definition Exec :: "Node option \<Rightarrow> ExecResult" where
  "Exec program =
     (case Children_of program of
        Inl e \<Rightarrow> Some ([], Some e)
      | Inr nodes \<Rightarrow> Exec_for nodes \<lparr>Variables = 0, Functions = Map.empty\<rparr> [Map.empty] [])"

text \<open>
  \<open>main\<close> parses its input with \<open>Program\<close> and, when the parser succeeds, prints the
  unprocessed rest and the tree and executes the tree; otherwise it prints that the
  parser failed. Reading the input and formatting the lines are outside the model.
\<close>

datatype Run = ParserFailed | Executed string "Output list" "error option"

definition main :: "string \<Rightarrow> Run option" where
  "main input =
     (case Program input of
        None \<Rightarrow> None
      | Some (node, rest, ok) \<Rightarrow>
          if ok then map_option (\<lambda>(out, err). Executed rest out err) (Exec node)
          else Some ParserFailed)"

section \<open>Properties of the parser engine\<close>

text \<open>
  Claim C9. On every input on which the wrapped sub-parser fails, \<open>As\<close> still returns a
  node that is not nil: it carries the given tag, its only child is the node result of
  the sub-parser (nil when the sub-parser returns nil on failure, as the primitives do),
  its value is empty, and it comes with the rest the sub-parser returned and with
  \<open>ok = false\<close>.
\<close>

theorem As_failure_returns_tagged_node:
  assumes "parser input = Some (parserNode, parserRest, False)"
  shows "As outType parser input =
           Some (Some (Node outType [parserNode] ''''), parserRest, False)"
  using assms by (simp add: As_def)

theorem As_failure_returns_tagged_node_witness:
  "As ''OpAdd'' (Character CHR ''+'') ''1'' =
     Some (Some (Node ''OpAdd'' [None] ''''), '''', False)"
proof -
  have "Character CHR ''+'' ''1'' = Some (None, '''', False)"
    by (simp add: Character_def)
  then show ?thesis by (rule As_failure_returns_tagged_node)
qed

subsection \<open>The repetition never reports a failure\<close>

lemma Some_for_never_fails:
  "Some_for outType parser children rest \<noteq> Some (node, rest', False)"
proof
  assume *: "Some_for outType parser children rest = Some (node, rest', False)"
  have "snd (snd (node, rest', False))"
  proof (rule Some_for.raw_induct
      [where P = "\<lambda>t p c r y. snd (snd y)", OF _ *], goal_cases)
    case (1 Some_for' outType parser children rest y)
    then show ?case
      by (cases y; cases "parser rest") (auto split: if_splits)
  qed
  then show False by simp
qed

lemma Some_parser_never_fails: "Some_parser outType parser input \<noteq> Some (node, rest, False)"
  unfolding Some_parser_def by (rule Some_for_never_fails)

lemma Program_never_fails: "Program input \<noteq> Some (node, rest, False)"
  unfolding Program_def by (rule Some_parser_never_fails)

lemma Program_1_plus:
  "Program ''1+'' =
     Some (Some (Node ''Lines''
             [Some (Node ''Line''
                [Some (Node ''Expression'' [Some (Node ''Number'' [] ''1'')] ''''),
                 Some (Node ''Whitespace'' [] '''')] '''')] ''''),
           ''+'', True)"
  by code_simp

text \<open>
  Claim C1 says that \<open>Program\<close> returns \<open>success = false\<close> on the input \<open>1+\<close>, with no
  tree. It does not: no result of \<open>Program\<close> on this input has the flag \<open>false\<close>.
\<close>

theorem Program_1_plus_not_failure:
  "\<not> (\<exists>node rest. Program ''1+'' = Some (node, rest, False))"
  by (simp add: Program_1_plus)

text \<open>
  Claim C1, amended. On the input \<open>1+\<close> the parser \<open>Program\<close> returns \<open>success = true\<close>,
  the tree of one line that holds the expression \<open>1\<close> and an empty line delimiter, and
  the rest \<open>+\<close>: the prefix \<open>1\<close> matches the outermost rule and the \<open>+\<close> is left
  unconsumed. The outermost rule is a repetition, and on no input does \<open>Program\<close> return
  \<open>success = false\<close>.
\<close>

theorem Program_1_plus_succeeds:
  "Program ''1+'' =
     Some (Some (Node ''Lines''
             [Some (Node ''Line''
                [Some (Node ''Expression'' [Some (Node ''Number'' [] ''1'')] ''''),
                 Some (Node ''Whitespace'' [] '''')] '''')] ''''),
           ''+'', True)
   \<and> (\<forall>input node rest. Program input \<noteq> Some (node, rest, False))"
  using Program_1_plus Program_never_fails by blast

subsection \<open>Failure results\<close>

lemma Or_failure: "Or parsers input = Some (node, rest, False) \<Longrightarrow> node = None \<and> rest = ''''"
proof (induction parsers)
  case Nil
  then show ?case by simp
next
  case (Cons parser parsers)
  then show ?case
    by (cases "parser input") (auto split: if_splits)
qed

lemma Then_for_failure:
  "Then_for outType parsers children rest = Some (node, rest', False)
    \<Longrightarrow> node = None \<and> rest' = ''''"
proof (induction parsers arbitrary: children rest)
  case Nil
  then show ?case by simp
next
  case (Cons parser parsers)
  then show ?case
    by (cases "parser rest") (auto split: if_splits)
qed

lemma ThenSkipping_for_failure:
  "ThenSkipping_for outType skip parsers children rest = Some (node, rest', False)
    \<Longrightarrow> node = None \<and> rest' = ''''"
proof (induction parsers arbitrary: children rest)
  case Nil
  then show ?case by simp
next
  case (Cons parser parsers)
  show ?case
  proof (cases "skip rest")
    case None
    with Cons.prems show ?thesis by simp
  next
    case (Some a)
    obtain sn sr sok where a: "a = (sn, sr, sok)" by (cases a)
    show ?thesis
    proof (cases "parser (if sok then sr else rest)")
      case None
      with Cons.prems Some a show ?thesis by simp
    next
      case (Some b)
      obtain n r ok where b: "b = (n, r, ok)" by (cases b)
      from Cons.prems \<open>skip rest = Some a\<close> a Some b Cons.IH [of "children @ [n]" r]
      show ?thesis by (cases ok) auto
    qed
  qed
qed

lemma AtLeast_for_failure:
  assumes "AtLeast_for outType minimum parser num children rest = Some (node, rest', False)"
  shows "node = None \<and> rest' = ''''"
proof -
  have "snd (snd (node, rest', False)) \<or> (fst (node, rest', False) = None
      \<and> fst (snd (node, rest', False)) = '''')"
  proof (rule AtLeast_for.raw_induct
      [where P = "\<lambda>t m p k c r y. snd (snd y) \<or> (fst y = None \<and> fst (snd y) = '''')",
        OF _ assms], goal_cases)
    case (1 AtLeast_for' outType minimum parser num children rest y)
    then show ?case
      by (cases y; cases "parser rest") (fastforce split: if_splits)+
  qed
  then show ?thesis by simp
qed

lemma Regex_failure:
  "Regex outType regex input = Some (node, rest, False) \<Longrightarrow> node = None \<and> rest = ''''"
  by (auto simp: Regex_def split: option.splits if_splits)

text \<open>
  Claim C2, amended. When a primitive (\<open>Digit\<close>, \<open>Character\<close>, \<open>Regex\<close>) or one of the
  combinators \<open>Or\<close>, \<open>Then\<close>, \<open>ThenSkipping\<close> and \<open>AtLeast\<close> fails, it returns no node and
  the empty string as the rest, not the input; \<open>Some\<close> never fails; \<open>Skipping\<close> returns
  what its parser returns after the skip (and \<open>As\<close> returns a tagged node on failure,
  see C9). A parser does not change the input of its caller: when the first alternative
  of \<open>Or\<close> fails, \<open>Or\<close> applies the remaining alternatives to the same input.
\<close>

theorem failure_returns_nil_and_empty_rest:
  "(Digit input = Some (node, rest, False) \<longrightarrow> node = None \<and> rest = '''')
   \<and> (Character chr input = Some (node, rest, False) \<longrightarrow> node = None \<and> rest = '''')
   \<and> (Regex outType regex input = Some (node, rest, False) \<longrightarrow> node = None \<and> rest = '''')
   \<and> (Or parsers input = Some (node, rest, False) \<longrightarrow> node = None \<and> rest = '''')
   \<and> (Then outType parsers input = Some (node, rest, False) \<longrightarrow> node = None \<and> rest = '''')
   \<and> (ThenSkipping outType skip parsers input = Some (node, rest, False)
        \<longrightarrow> node = None \<and> rest = '''')
   \<and> (AtLeast outType minimum parser input = Some (node, rest, False)
        \<longrightarrow> node = None \<and> rest = '''')
   \<and> Some_parser outType parser input \<noteq> Some (node, rest, False)
   \<and> (skip input = Some (skipNode, skipRest, skipOk)
        \<longrightarrow> Skipping skip parser input = parser (if skipOk then skipRest else input))
   \<and> (parser input = Some (parserNode, parserRest, False)
        \<longrightarrow> Or (parser # parsers) input = Or parsers input)"
proof (intro conjI impI)
  show "Some_parser outType parser input \<noteq> Some (node, rest, False)"
    by (rule Some_parser_never_fails)
qed (auto simp: Digit_def Character_def Then_def ThenSkipping_def AtLeast_def Skipping_def
      dest: Regex_failure Or_failure Then_for_failure ThenSkipping_for_failure
        AtLeast_for_failure split: if_splits)

theorem failure_returns_nil_and_empty_rest_witness:
  "Character CHR ''a'' ''b'' = Some (None, '''', False)
   \<and> Or [Character CHR ''a'', Character CHR ''b''] ''b'' =
       Some (Some (Node ''Char'' [] ''b''), '''', True)"
proof -
  have a: "Character CHR ''a'' ''b'' = Some (None, '''', False)"
    by (simp add: Character_def)
  have "Or [Character CHR ''a'', Character CHR ''b''] ''b'' = Or [Character CHR ''b''] ''b''"
    using failure_returns_nil_and_empty_rest
      [where input = "''b''" and parser = "Character CHR ''a''"
        and parsers = "[Character CHR ''b'']" and parserNode = None and parserRest = "''''"] a
    by blast
  then show ?thesis using a by (simp add: Character_def Char_NodeType_def)
qed

text \<open>
  Claim C2 says that a parser that fails returns no node and the input untouched. On
  the input \<open>b\<close> the parser \<open>Character a\<close> fails with the empty string as its rest,
  which is not the input, and \<open>As OpAdd (Character +)\<close> fails with a node.
\<close>

theorem failure_keeps_input_counterexample:
  "Character CHR ''a'' ''b'' = Some (None, '''', False) \<and> '''' \<noteq> ''b''
   \<and> As ''OpAdd'' (Character CHR ''+'') ''b'' =
       Some (Some (Node ''OpAdd'' [None] ''''), '''', False)"
  by (simp add: Character_def As_def)

subsection \<open>The repetitions\<close>

lemma Some_for_successes:
  assumes "successes parser k input = Some (children, rest)"
    and "parser rest = Some (parserNode, parserRest, False)"
  shows "Some_for outType parser acc input =
           Some (Some (Node outType (acc @ children) ''''), rest, True)"
  using assms(1)
proof (induction k arbitrary: acc input children)
  case 0
  with assms(2) show ?case by (subst Some_for.simps) simp
next
  case (Suc k)
  from Suc.prems obtain n r where p: "parser input = Some (n, r, True)"
    by (auto split: option.splits bool.splits)
  with Suc.prems obtain cs where cs: "successes parser k r = Some (cs, rest)"
    and children: "children = n # cs"
    by auto
  from Suc.IH [OF cs, of "acc @ [n]"] p children show ?case
    by (subst Some_for.simps) simp
qed

lemma Some_for_returns_after_failure:
  assumes "Some_for outType parser acc input = Some y"
  shows "\<exists>k children rest parserNode parserRest.
           successes parser k input = Some (children, rest)
           \<and> parser rest = Some (parserNode, parserRest, False)
           \<and> y = (Some (Node outType (acc @ children) ''''), rest, True)"
proof (rule Some_for.raw_induct
    [where P = "\<lambda>outType parser acc input y.
       \<exists>k children rest parserNode parserRest.
           successes parser k input = Some (children, rest)
           \<and> parser rest = Some (parserNode, parserRest, False)
           \<and> y = (Some (Node outType (acc @ children) ''''), rest, True)",
      OF _ assms], goal_cases)
  case (1 Some_for' outType parser acc input y)
  from 1(2) obtain n r ok where p: "parser input = Some (n, r, ok)"
    by (cases "parser input") auto
  show ?case
  proof (cases ok)
    case False
    with 1(2) p have "y = (Some (Node outType (acc @ []) ''''), input, True)" by simp
    moreover have "successes parser 0 input = Some ([], input)" by simp
    moreover from p False have "parser input = Some (n, r, False)" by simp
    ultimately show ?thesis by blast
  next
    case True
    with 1(2) p have "Some_for' outType parser (acc @ [n]) r = Some y" by simp
    from 1(1) [OF this] obtain k cs rest pn pr where
      s: "successes parser k r = Some (cs, rest)"
      and f: "parser rest = Some (pn, pr, False)"
      and y: "y = (Some (Node outType ((acc @ [n]) @ cs) ''''), rest, True)"
      by blast
    from p True s have "successes parser (Suc k) input = Some (n # cs, rest)" by simp
    moreover from y have "y = (Some (Node outType (acc @ n # cs) ''''), rest, True)" by simp
    ultimately show ?thesis using f by blast
  qed
qed

lemma WS_succeeds: "\<exists>node rest. WS input = Some (node, rest, True)"
proof -
  have m: "\<exists>n. match_here [([(CHR '' '', CHR '' '')], Star)] input = Some n"
    by (induction input) (auto split: option.splits)
  then obtain n where "match_here [([(CHR '' '', CHR '' '')], Star)] input = Some n" ..
  then have "FindStringIndex [([(CHR '' '', CHR '' '')], Star)] input = Some (0, n)"
    by (cases input) (simp_all add: FindStringIndex_def)
  then show ?thesis by (simp add: WS_def Regex_def)
qed

lemma Some_for_WS_diverges: "Some_for outType WS children rest = None"
proof (cases "Some_for outType WS children rest")
  case None
  then show ?thesis .
next
  case (Some y)
  have "WS \<noteq> WS"
  proof (rule Some_for.raw_induct [where P = "\<lambda>t p c r y. p \<noteq> WS", OF _ Some], goal_cases)
    case (1 Some_for' outType parser children rest y)
    show ?case
    proof
      assume "parser = WS"
      with WS_succeeds [of rest] obtain n r where "parser rest = Some (n, r, True)" by blast
      with 1(2) have "Some_for' outType parser (children @ [n]) r = Some y" by simp
      then have "parser \<noteq> WS" by (rule 1(1))
      with \<open>parser = WS\<close> show False by simp
    qed
  qed
  then show ?thesis by simp
qed

text \<open>
  Claim C6 says that \<open>Some\<close> succeeds for every sub-parser and every input. The
  whitespace parser \<open>WS\<close> of the grammar succeeds on every input, on the input \<open>1\<close>
  without consuming anything, so the loop of \<open>Some\<close> over \<open>WS\<close> never ends: the call
  does not return.
\<close>

theorem Some_of_WS_does_not_return: "Some_parser ''Spaces'' WS ''1'' = None"
  unfolding Some_parser_def by (rule Some_for_WS_diverges)

text \<open>
  Claim C6, amended. For every sub-parser and every input on which the sub-parser fails
  after \<open>k \<ge> 0\<close> successes in a row, \<open>Some\<close> succeeds: its node has the nodes of the \<open>k\<close>
  successes as children, in order, and its rest is the rest after the last success; for
  \<open>k = 0\<close> the child list is empty and the rest is the input. \<open>Some\<close> never returns
  \<open>ok = false\<close>, and it returns on these inputs only: when the sub-parser never fails,
  \<open>Some\<close> does not return.
\<close>

theorem Some_collects_successes:
  "(successes parser k input = Some (children, rest)
      \<and> parser rest = Some (parserNode, parserRest, False)
    \<longrightarrow> Some_parser outType parser input = Some (Some (Node outType children ''''), rest, True))
   \<and> Some_parser outType parser input \<noteq> Some (node, rest', False)
   \<and> (Some_parser outType parser input = Some y
    \<longrightarrow> (\<exists>k children rest parserNode parserRest.
           successes parser k input = Some (children, rest)
           \<and> parser rest = Some (parserNode, parserRest, False)
           \<and> y = (Some (Node outType children ''''), rest, True)))"
  using Some_for_successes [of parser k input children rest parserNode parserRest outType "[]"]
    Some_parser_never_fails [of outType parser input node rest']
    Some_for_returns_after_failure [of outType parser "[]" input y]
  by (simp add: Some_parser_def)

theorem Some_collects_successes_witness:
  "Some_parser ''Digits'' Digit ''12a'' =
     Some (Some (Node ''Digits''
                   [Some (Node ''Char'' [] ''1''), Some (Node ''Char'' [] ''2'')] ''''),
           ''a'', True)
   \<and> Some_parser ''Digits'' Digit ''a'' = Some (Some (Node ''Digits'' [] ''''), ''a'', True)"
proof -
  have 1: "successes Digit 2 ''12a'' =
      Some ([Some (Node ''Char'' [] ''1''), Some (Node ''Char'' [] ''2'')], ''a'')"
    by code_simp
  have 2: "Digit ''a'' = Some (None, '''', False)" by code_simp
  have 3: "successes Digit 0 ''a'' = Some ([], ''a'')" by simp
  from 1 2 3 show ?thesis
    using Some_collects_successes [where parser = Digit and k = 2 and input = "''12a''"
        and rest = "''a''" and parserNode = None and parserRest = "''''"
        and outType = "''Digits''"]
      Some_collects_successes [where parser = Digit and k = 0 and input = "''a''"
        and children = "[]" and rest = "''a''" and parserNode = None and parserRest = "''''"
        and outType = "''Digits''"]
    by blast
qed

lemma Some_for_returns:
  assumes total: "\<And>x. parser x \<noteq> None"
    and consumes: "\<And>x node rest. parser x = Some (node, rest, True) \<Longrightarrow> length rest < length x"
  shows "\<exists>y. Some_for outType parser children input = Some y"
proof (induction "length input" arbitrary: children input rule: less_induct)
  case less
  from total [of input] obtain n r ok where p: "parser input = Some (n, r, ok)"
    by (cases "parser input") auto
  show ?case
  proof (cases ok)
    case True
    with p have "length r < length input" by (auto dest: consumes)
    from less [OF this, of "children @ [n]"] p True show ?thesis
      by (subst Some_for.simps) simp
  next
    case False
    with p show ?thesis by (subst Some_for.simps) auto
  qed
qed

lemma AtLeast_for_returns:
  assumes total: "\<And>x. parser x \<noteq> None"
    and consumes: "\<And>x node rest. parser x = Some (node, rest, True) \<Longrightarrow> length rest < length x"
  shows "\<exists>y. AtLeast_for outType minimum parser num children input = Some y"
proof (induction "length input" arbitrary: num children input rule: less_induct)
  case less
  from total [of input] obtain n r ok where p: "parser input = Some (n, r, ok)"
    by (cases "parser input") auto
  show ?case
  proof (cases ok)
    case True
    with p have "length r < length input" by (auto dest: consumes)
    from less [OF this, of "num + 1" "children @ [n]"] p True show ?thesis
      by (subst AtLeast_for.simps) simp
  next
    case False
    with p show ?thesis by (subst AtLeast_for.simps) auto
  qed
qed

text \<open>
  Claim C10. For every sub-parser that returns on every input and whose every success
  consumes input (the rest it returns is shorter than its input), and for every input,
  \<open>Some\<close> and \<open>AtLeast\<close> return.
\<close>

theorem repetitions_return:
  assumes "\<forall>x. parser x \<noteq> None"
    and "\<forall>x node rest. parser x = Some (node, rest, True) \<longrightarrow> length rest < length x"
  shows "(\<exists>y. Some_parser outType parser input = Some y)
    \<and> (\<exists>y. AtLeast outType minimum parser input = Some y)"
  unfolding Some_parser_def AtLeast_def
  using Some_for_returns [of parser outType "[]" input]
    AtLeast_for_returns [of parser outType minimum 0 "[]" input] assms
  by blast

lemma Digit_returns: "Digit x \<noteq> None"
  by (auto simp: Digit_def)

lemma Digit_consumes: "Digit x = Some (node, rest, True) \<Longrightarrow> length rest < length x"
  by (auto simp: Digit_def split: if_splits)

theorem repetitions_return_witness:
  "(\<exists>y. Some_parser ''Digits'' Digit ''12a'' = Some y)
    \<and> (\<exists>y. AtLeast ''Digits'' 3 Digit ''12a'' = Some y)"
  using repetitions_return [of Digit "''Digits''" "''12a''" 3] Digit_returns Digit_consumes
  by blast

section \<open>Properties of the evaluator\<close>

text \<open>\<open>Eval\<close> on the nodes the grammar builds, one equation for each shape.\<close>

lemma Eval_Variable:
  "Eval (Some (Node ''Variable'' children name)) memory store =
     Some (Inr (map_read (map_at store (Variables memory)) name, store))"
  by (subst Eval.simps) simp

lemma Eval_Number:
  "Eval (Some (Node ''Number'' children text)) memory store =
     (case ParseFloat text of
        None \<Rightarrow> Some (Inl NumberOutsideModel)
      | Some number \<Rightarrow> Some (Inr (number, store)))"
  by (subst Eval.simps) simp

lemma Eval_Expression:
  "Eval (Some (Node ''Expression'' (c0 # children) text)) memory store = Eval c0 memory store"
  by (subst Eval.simps) (simp add: index_def)

lemma Eval_Multiplication:
  "Eval (Some (Node ''Multiplication'' (c0 # Some (Node t1 mults v1) # children) text))
      memory store =
     bind_result (Eval c0 memory store) (\<lambda>(number, store1).
       Multiplication_for Eval mults memory number store1)"
  by (subst Eval.simps) (simp add: index_def Children_of_def)

lemma Eval_FunctionCall:
  "Eval (Some (Node ''FunctionCall''
                 (Some (Node t0 cs0 name) # c1 # Some (Node t2 args v2) # children) text))
      memory store =
     bind_result (Arguments_for Eval args memory [] store) (\<lambda>(arguments, store1).
       Eval (FunctionExpression (function_of memory name))
         \<lparr>Variables = length store1, Functions = Functions memory\<rparr>
         (store1 @ [bind_parameters (Parameters (function_of memory name)) arguments
                      (map_at store1 (Variables memory))]))"
  by (subst Eval.simps) (simp add: index_def Children_of_def Value_of_def)

text \<open>
  Claim C8. In every memory whose variable map does not have the name, evaluating a
  \<open>Variable\<close> node with this name returns the number \<open>+0\<close>, with no panic, and leaves the
  store as it is.
\<close>

theorem Eval_undefined_Variable_is_zero:
  assumes "map_at store (Variables memory) name = None"
  shows "Eval (Some (Node ''Variable'' children name)) memory store =
           Some (Inr (zero64 False, store))"
  using assms by (simp add: Eval_Variable map_read_def)

theorem Eval_undefined_Variable_is_zero_witness:
  "Eval (Some (Node ''Variable'' [] ''y''))
     \<lparr>Variables = 0, Functions = Map.empty\<rparr> [[''x'' \<mapsto> float64_of_int 5]] =
   Some (Inr (Finite False 0 (- 1074), [[''x'' \<mapsto> float64_of_int 5]]))"
proof -
  have "map_at [[''x'' \<mapsto> float64_of_int 5]]
      (Variables \<lparr>Variables = 0, Functions = Map.empty\<rparr>) ''y'' = None"
    by (simp add: map_at_def)
  from Eval_undefined_Variable_is_zero [OF this, of "[]"] show ?thesis
    by (simp add: zero64_def)
qed

lemma div64_by_zero:
  "div64 x (Finite s 0 e) = NaN \<or> (\<exists>t. div64 x (Finite s 0 e) = Infinity t)"
  by (cases x) auto

text \<open>
  Claim C7. When a division term of a \<open>Multiplication\<close> chain has a divisor that
  evaluates to zero (of either sign), the evaluator neither panics nor treats the case
  apart: at any place of the chain, with any number \<open>x\<close> computed so far, the loop goes
  on with the quotient of the \<open>float64\<close> division of \<open>x\<close> by the zero, which is an
  infinity or not a number; for a chain of this one term, the quotient is the value of
  the \<open>Multiplication\<close> node.
\<close>

theorem division_by_zero_is_not_an_error:
  assumes "Eval divisor memory store1 = Some (Inr (Finite s 0 e, store2))"
  shows "Multiplication_for Eval
           (Some (Node ''Term'' [Some (Node ''OpDiv'' slash ''''), divisor] '''') # mults)
           memory x store1
         = Multiplication_for Eval mults memory (div64 x (Finite s 0 e)) store2
       \<and> (div64 x (Finite s 0 e) = NaN \<or> (\<exists>t. div64 x (Finite s 0 e) = Infinity t))
       \<and> (Eval dividend memory store = Some (Inr (x, store1)) \<longrightarrow>
            Eval (Some (Node ''Multiplication''
                    [dividend,
                     Some (Node ''Terms''
                       [Some (Node ''Term'' [Some (Node ''OpDiv'' slash ''''), divisor] '''')]
                       '''')] '''')) memory store
            = Some (Inr (div64 x (Finite s 0 e), store2)))"
  using assms div64_by_zero [of x s e]
  by (simp add: Eval_Multiplication bind_result_def child_def index_def Type_of_def)

lemma ParseFloat_1: "ParseFloat ''1'' = Some (float64_of_int 1)"
  by code_simp

lemma ParseFloat_0: "ParseFloat ''0'' = Some (Finite False 0 (- 1074))"
  by code_simp

lemma div64_1_0: "div64 (float64_of_int 1) (Finite False 0 (- 1074)) = Infinity False"
  by code_simp

theorem division_by_zero_is_not_an_error_witness:
  "Eval (Some (Node ''Multiplication''
           [Some (Node ''Number'' [] ''1''),
            Some (Node ''Terms''
              [Some (Node ''Term'' [Some (Node ''OpDiv'' [Some (Node ''Char'' [] ''/'')] ''''),
                                    Some (Node ''Number'' [] ''0'')] '''')]
              '''')] '''')) \<lparr>Variables = 0, Functions = Map.empty\<rparr> [Map.empty]
     = Some (Inr (Infinity False, [Map.empty]))"
proof -
  have 1: "Eval (Some (Node ''Number'' [] ''1'')) \<lparr>Variables = 0, Functions = Map.empty\<rparr>
      [Map.empty] = Some (Inr (float64_of_int 1, [Map.empty]))"
    by (simp add: Eval_Number ParseFloat_1)
  have 2: "Eval (Some (Node ''Number'' [] ''0'')) \<lparr>Variables = 0, Functions = Map.empty\<rparr>
      [Map.empty] = Some (Inr (Finite False 0 (- 1074), [Map.empty]))"
    by (simp add: Eval_Number ParseFloat_0)
  from division_by_zero_is_not_an_error [OF 2,
      where slash = "[Some (Node ''Char'' [] ''/'')]" and x = "float64_of_int 1"
        and dividend = "Some (Node ''Number'' [] ''1'')" and store = "[Map.empty]"] 1
  show ?thesis by (simp add: div64_1_0)
qed

subsection \<open>Runs of whole programs\<close>

lemma main_2_plus_3_times_4:
  "main ''2+3*4'' = Some (Executed '''' [Println_value (float64_of_int 14)] None)"
  by code_simp

lemma main_2_plus_3_in_parentheses_times_4:
  "main ''(2+3)*4'' = Some (Executed '''' [Println_value (float64_of_int 20)] None)"
  by code_simp

lemma main_8_minus_3_minus_2:
  "main ''8-3-2'' = Some (Executed '''' [Println_value (float64_of_int 3)] None)"
  by code_simp

lemma main_8_by_4_by_2:
  "main ''8/4/2'' = Some (Executed '''' [Println_value (float64_of_int 1)] None)"
  by code_simp

text \<open>
  Claim C5. Parsing and then evaluating gives 14 for \<open>2+3*4\<close>, 20 for \<open>(2+3)*4\<close>, 3 for
  \<open>8-3-2\<close> and 1 for \<open>8/4/2\<close>: \<open>main\<close> consumes the whole input and prints this one value.
\<close>

theorem precedence_and_associativity:
  "main ''2+3*4'' = Some (Executed '''' [Println_value (float64_of_int 14)] None)
   \<and> main ''(2+3)*4'' = Some (Executed '''' [Println_value (float64_of_int 20)] None)
   \<and> main ''8-3-2'' = Some (Executed '''' [Println_value (float64_of_int 3)] None)
   \<and> main ''8/4/2'' = Some (Executed '''' [Println_value (float64_of_int 1)] None)"
  using main_2_plus_3_times_4 main_2_plus_3_in_parentheses_times_4 main_8_minus_3_minus_2
    main_8_by_4_by_2
  by simp

lemma main_forward_reference:
  "main ''f()=g();g()=1;f()'' = Some (Executed '''' [Println_value (float64_of_int 1)] None)"
  by code_simp

lemma main_call_before_declaration:
  "main ''f()=g();f();g()=1'' = Some (Executed '''' [] (Some NilPointerDereference))"
  by code_simp

text \<open>
  Claim C3 says that the call \<open>f()\<close> of the program \<open>f()=g();g()=1;f()\<close> fails. The run
  of this program ends with no error.
\<close>

theorem forward_reference_does_not_fail:
  "\<not> (\<exists>rest out e. main ''f()=g();g()=1;f()'' = Some (Executed rest out (Some e)))"
  by (simp add: main_forward_reference)

text \<open>
  Claim C3, amended. Executing \<open>f()=g();g()=1;f()\<close> prints the value 1 for the call
  \<open>f()\<close>: the function map is read when the body of \<open>f\<close> is evaluated, on the third
  line, and by then the second line has registered \<open>g\<close>. A call that is evaluated
  before the declaration of \<open>g\<close> is executed, as in \<open>f()=g();f();g()=1\<close>, does fail: the
  map gives the zero \<open>MemoryFunction\<close>, whose expression is nil, and the run ends in a
  nil pointer dereference.
\<close>

theorem call_after_both_declarations_succeeds:
  "main ''f()=g();g()=1;f()'' = Some (Executed '''' [Println_value (float64_of_int 1)] None)
   \<and> main ''f()=g();f();g()=1'' = Some (Executed '''' [] (Some NilPointerDereference))"
  using main_forward_reference main_call_before_declaration by simp

subsection \<open>Function calls and the variables of the caller\<close>

text \<open>
  An evaluation only adds maps to the store: every map that was in the store before is
  in it afterwards, at its address and with its entries. The loops keep this property
  of the evaluator they call, and \<open>Eval\<close> has it.
\<close>

lemma extends_storeD:
  "extends_store eval \<Longrightarrow> eval node memory store = Some (Inr (v, store'))
    \<Longrightarrow> \<exists>ext. store' = store @ ext"
  unfolding extends_store_def by blast

lemma bind_result_Inr:
  "bind_result r k = Some (Inr y) \<Longrightarrow> \<exists>x. r = Some (Inr x) \<and> k x = Some (Inr y)"
  by (auto simp: bind_result_def split: option.splits sum.splits)

lemma Sum_for_extends:
  assumes "extends_store eval"
  shows "Sum_for eval sums memory number store = Some (Inr (v, store'))
    \<Longrightarrow> \<exists>ext. store' = store @ ext"
proof (induction sums arbitrary: number store)
  case Nil
  then show ?case by simp
next
  case (Cons sum_term sums)
  from Cons.prems obtain operator t operand where
    "bind_result (eval operand memory store) (\<lambda>(w, store1).
       Sum_for eval sums memory
         (if t = ''OpAdd'' then add64 number w else sub64 number w) store1)
     = Some (Inr (v, store'))"
    by (auto split: sum.splits)
  then obtain w store1 where 1: "eval operand memory store = Some (Inr (w, store1))"
    and 2: "Sum_for eval sums memory
         (if t = ''OpAdd'' then add64 number w else sub64 number w) store1
       = Some (Inr (v, store'))"
    by (auto dest!: bind_result_Inr)
  from extends_storeD [OF assms 1] Cons.IH [OF 2] show ?case by auto
qed

lemma Multiplication_for_extends:
  assumes "extends_store eval"
  shows "Multiplication_for eval mults memory number store = Some (Inr (v, store'))
    \<Longrightarrow> \<exists>ext. store' = store @ ext"
proof (induction mults arbitrary: number store)
  case Nil
  then show ?case by simp
next
  case (Cons mult_term mults)
  from Cons.prems obtain operator t operand where
    "bind_result (eval operand memory store) (\<lambda>(w, store1).
       Multiplication_for eval mults memory
         (if t = ''OpMult'' then mul64 number w else div64 number w) store1)
     = Some (Inr (v, store'))"
    by (auto split: sum.splits)
  then obtain w store1 where 1: "eval operand memory store = Some (Inr (w, store1))"
    and 2: "Multiplication_for eval mults memory
         (if t = ''OpMult'' then mul64 number w else div64 number w) store1
       = Some (Inr (v, store'))"
    by (auto dest!: bind_result_Inr)
  from extends_storeD [OF assms 1] Cons.IH [OF 2] show ?case by auto
qed

lemma Arguments_for_extends:
  assumes "extends_store eval"
  shows "Arguments_for eval args memory arguments store = Some (Inr (vs, store'))
    \<Longrightarrow> \<exists>ext. store' = store @ ext"
proof (induction args arbitrary: arguments store)
  case Nil
  then show ?case by simp
next
  case (Cons argument args)
  from Cons.prems obtain expression where
    "bind_result (eval expression memory store) (\<lambda>(w, store1).
       Arguments_for eval args memory (arguments @ [w]) store1)
     = Some (Inr (vs, store'))"
    by (auto split: sum.splits)
  then obtain w store1 where 1: "eval expression memory store = Some (Inr (w, store1))"
    and 2: "Arguments_for eval args memory (arguments @ [w]) store1 = Some (Inr (vs, store'))"
    by (auto dest!: bind_result_Inr)
  from extends_storeD [OF assms 1] Cons.IH [OF 2] show ?case by auto
qed

lemma Eval_extends_store_aux:
  assumes "Eval node memory store = Some y"
  shows "\<forall>v store'. y = Inr (v, store') \<longrightarrow> (\<exists>ext. store' = store @ ext)"
proof (rule Eval.raw_induct
    [where P = "\<lambda>node memory store y.
       \<forall>v store'. y = Inr (v, store') \<longrightarrow> (\<exists>ext. store' = store @ ext)",
      OF _ assms], goal_cases)
  case (1 Eval' node memory store y)
  have ok: "extends_store Eval'"
    unfolding extends_store_def using 1(1) by blast
  show ?case
  proof (intro allI impI)
    fix v store' assume y: "y = Inr (v, store')"
    show "\<exists>ext. store' = store @ ext"
    proof (cases node)
      case None
      with 1(2) y show ?thesis by simp
    next
      case (Some nd)
      consider (Expression) "Type nd = ''Expression''" | (Sum) "Type nd = ''Sum''"
        | (Multiplication) "Type nd = ''Multiplication''" | (Unit) "Type nd = ''Unit''"
        | (Number) "Type nd = ''Number''" | (Variable) "Type nd = ''Variable''"
        | (FunctionCall) "Type nd = ''FunctionCall''"
        | (default) "Type nd \<notin> {''Expression'', ''Sum'', ''Multiplication'', ''Unit'',
            ''Number'', ''Variable'', ''FunctionCall''}"
        by auto
      then show ?thesis
      proof cases
        case Expression
        with 1(2) y Some show ?thesis
          by (auto split: sum.splits dest: extends_storeD [OF ok])
      next
        case Sum
        with 1(2) y Some show ?thesis
          by (auto split: sum.splits
              dest!: bind_result_Inr extends_storeD [OF ok] Sum_for_extends [OF ok])
      next
        case Multiplication
        with 1(2) y Some show ?thesis
          by (auto split: sum.splits
              dest!: bind_result_Inr extends_storeD [OF ok] Multiplication_for_extends [OF ok])
      next
        case Unit
        with 1(2) y Some show ?thesis
          by (auto split: sum.splits dest: extends_storeD [OF ok])
      next
        case Number
        with 1(2) y Some show ?thesis
          by (auto split: option.splits)
      next
        case Variable
        with 1(2) y Some show ?thesis by auto
      next
        case FunctionCall
        with 1(2) y Some show ?thesis
          by (auto split: sum.splits dest!: bind_result_Inr
              dest!: extends_storeD [OF ok] Arguments_for_extends [OF ok])
      next
        case default
        with 1(2) y Some show ?thesis by auto
      qed
    qed
  qed
qed

lemma Eval_extends_store:
  assumes "Eval node memory store = Some (Inr (v, store'))"
  shows "\<exists>ext. store' = store @ ext"
  using Eval_extends_store_aux [OF assms] by blast

lemma Expression_x_times_2:
  "Expression ''x*2'' =
     Some (Some (Node ''Expression''
       [Some (Node ''Multiplication''
          [Some (Node ''Variable'' [] ''x''),
           Some (Node ''Terms''
             [Some (Node ''Term''
                [Some (Node ''OpMult'' [Some (Node ''Char'' [] ''*'')] ''''),
                 Some (Node ''Number'' [] ''2'')] '''')] '''')] '''')] ''''), '''', True)"
  by code_simp

lemma Expression_f_9:
  "Expression ''f(9)'' =
     Some (Some (Node ''Expression''
       [Some (Node ''FunctionCall''
          [Some (Node ''Variable'' [] ''f''),
           Some (Node ''Char'' [] ''(''),
           Some (Node ''Arguments''
             [Some (Node ''Argument''
                [Some (Node ''Expression'' [Some (Node ''Number'' [] ''9'')] ''''),
                 Some (Node ''ArgumentDelimeter'' [] '''')] '''')] ''''),
           Some (Node ''Char'' [] '')'')] '''')] ''''), '''', True)"
  by code_simp

lemma ParseFloat_9: "ParseFloat ''9'' = Some (float64_of_int 9)"
  by code_simp

lemma ParseFloat_2: "ParseFloat ''2'' = Some (float64_of_int 2)"
  by code_simp

lemma mul64_9_2: "mul64 (float64_of_int 9) (float64_of_int 2) = float64_of_int 18"
  by code_simp

lemma main_shadowed_parameter:
  "main ''x=5;f(x)=x*2;f(9);x'' =
     Some (Executed ''''
       [Println_assignment ''x'' (float64_of_int 5),
        Println_value (float64_of_int 18),
        Println_value (float64_of_int 5)] None)"
  by code_simp

lemma map_at_new: "map_at (store @ [m]) (length store) = m"
  by (simp add: map_at_def)

lemma map_at_old: "a < length store \<Longrightarrow> map_at (store @ ext) a = map_at store a"
  by (simp add: map_at_def nth_append)

lemma call_f_9:
  assumes body: "Expression ''x*2'' = Some (body, '''', True)"
    and call: "Expression ''f(9)'' = Some (call, '''', True)"
    and f: "Functions memory ''f'' = Some \<lparr>Parameters = [''x''], FunctionExpression = body\<rparr>"
  shows "Eval call memory store =
           Some (Inr (float64_of_int 18,
             store @ [(map_at store (Variables memory))(''x'' \<mapsto> float64_of_int 9)]))"
proof -
  from body have body': "body = Some (Node ''Expression''
       [Some (Node ''Multiplication''
          [Some (Node ''Variable'' [] ''x''),
           Some (Node ''Terms''
             [Some (Node ''Term''
                [Some (Node ''OpMult'' [Some (Node ''Char'' [] ''*'')] ''''),
                 Some (Node ''Number'' [] ''2'')] '''')] '''')] '''')] '''')"
    by (simp add: Expression_x_times_2)
  from call have call': "call = Some (Node ''Expression''
       [Some (Node ''FunctionCall''
          [Some (Node ''Variable'' [] ''f''),
           Some (Node ''Char'' [] ''(''),
           Some (Node ''Arguments''
             [Some (Node ''Argument''
                [Some (Node ''Expression'' [Some (Node ''Number'' [] ''9'')] ''''),
                 Some (Node ''ArgumentDelimeter'' [] '''')] '''')] ''''),
           Some (Node ''Char'' [] '')'')] '''')] '''')"
    by (simp add: Expression_f_9)
  have args: "Arguments_for Eval
      [Some (Node ''Argument''
                [Some (Node ''Expression'' [Some (Node ''Number'' [] ''9'')] ''''),
                 Some (Node ''ArgumentDelimeter'' [] '''')] '''')] memory [] store
      = Some (Inr ([float64_of_int 9], store))"
    by (simp add: child_def index_def Eval_Expression Eval_Number ParseFloat_9 bind_result_def)
  have fn: "function_of memory ''f'' = \<lparr>Parameters = [''x''], FunctionExpression = body\<rparr>"
    using f by (simp add: function_of_def)
  show ?thesis
    unfolding call' 
    by (simp add: Eval_Expression Eval_FunctionCall args fn bind_result_def body'
        Eval_Multiplication Eval_Variable Eval_Number ParseFloat_2 ParseFloat_9 mul64_9_2
        child_def index_def Type_of_def map_at_new map_read_def)
qed

text \<open>
  Claim C4. Let \<open>f\<close> be declared as \<open>f(x)=x*2\<close>, and let the variable map of the caller
  hold \<open>x = 5\<close>. Then the call \<open>f(9)\<close> returns 18: the body is evaluated in a new map, a
  copy of the caller's in which \<open>x\<close> is 9, and in the store after the call the map of
  the caller still holds \<open>x = 5\<close>. No evaluation changes a map that existed before it,
  so a callee cannot write to the map of its caller. The run of the program
  \<open>x=5;f(x)=x*2;f(9);x\<close> prints \<open>x = 5\<close>, 18 and 5.
\<close>

theorem call_leaves_caller_variables:
  assumes "Expression ''x*2'' = Some (body, '''', True)"
    and "Expression ''f(9)'' = Some (call, '''', True)"
    and "Functions memory ''f'' = Some \<lparr>Parameters = [''x''], FunctionExpression = body\<rparr>"
    and "map_at store (Variables memory) ''x'' = Some (float64_of_int 5)"
  shows "(\<exists>store'. Eval call memory store = Some (Inr (float64_of_int 18, store'))
            \<and> store' = store @ [(map_at store (Variables memory))(''x'' \<mapsto> float64_of_int 9)]
            \<and> map_at store' (length store) ''x'' = Some (float64_of_int 9)
            \<and> map_at store' (Variables memory) ''x'' = Some (float64_of_int 5))
         \<and> (\<forall>node memory store v store'.
               Eval node memory store = Some (Inr (v, store'))
               \<longrightarrow> take (length store) store' = store)
         \<and> main ''x=5;f(x)=x*2;f(9);x'' =
             Some (Executed ''''
               [Println_assignment ''x'' (float64_of_int 5),
                Println_value (float64_of_int 18),
                Println_value (float64_of_int 5)] None)"
proof (intro conjI allI impI)
  have a: "Variables memory < length store"
    using assms(4) by (auto simp: map_at_def split: if_splits)
  show "\<exists>store'. Eval call memory store = Some (Inr (float64_of_int 18, store'))
            \<and> store' = store @ [(map_at store (Variables memory))(''x'' \<mapsto> float64_of_int 9)]
            \<and> map_at store' (length store) ''x'' = Some (float64_of_int 9)
            \<and> map_at store' (Variables memory) ''x'' = Some (float64_of_int 5)"
    using call_f_9 [OF assms(1-3), of store] assms(4) a
    by (simp add: map_at_new map_at_old)
next
  fix node memory store v store'
  assume "Eval node memory store = Some (Inr (v, store'))"
  then show "take (length store) store' = store"
    by (auto dest: Eval_extends_store)
next
  show "main ''x=5;f(x)=x*2;f(9);x'' =
             Some (Executed ''''
               [Println_assignment ''x'' (float64_of_int 5),
                Println_value (float64_of_int 18),
                Println_value (float64_of_int 5)] None)"
    by (rule main_shadowed_parameter)
qed

theorem call_leaves_caller_variables_witness:
  "Eval (Some (Node ''Expression''
       [Some (Node ''FunctionCall''
          [Some (Node ''Variable'' [] ''f''),
           Some (Node ''Char'' [] ''(''),
           Some (Node ''Arguments''
             [Some (Node ''Argument''
                [Some (Node ''Expression'' [Some (Node ''Number'' [] ''9'')] ''''),
                 Some (Node ''ArgumentDelimeter'' [] '''')] '''')] ''''),
           Some (Node ''Char'' [] '')'')] '''')] ''''))
     \<lparr>Variables = 0,
      Functions = [''f'' \<mapsto> \<lparr>Parameters = [''x''], FunctionExpression =
        Some (Node ''Expression''
          [Some (Node ''Multiplication''
             [Some (Node ''Variable'' [] ''x''),
              Some (Node ''Terms''
                [Some (Node ''Term''
                   [Some (Node ''OpMult'' [Some (Node ''Char'' [] ''*'')] ''''),
                    Some (Node ''Number'' [] ''2'')] '''')] '''')] '''')] '''')\<rparr>]\<rparr>
     [[''x'' \<mapsto> float64_of_int 5]]
   = Some (Inr (float64_of_int 18,
       [[''x'' \<mapsto> float64_of_int 5], [''x'' \<mapsto> float64_of_int 9]]))"
proof -
  have "map_at [[''x'' \<mapsto> float64_of_int 5]] 0 ''x'' = Some (float64_of_int 5)"
    by (simp add: map_at_def)
  from call_leaves_caller_variables [OF Expression_x_times_2 Expression_f_9,
      of "\<lparr>Variables = 0, Functions = [''f'' \<mapsto> \<lparr>Parameters = [''x''],
        FunctionExpression = Some (Node ''Expression''
          [Some (Node ''Multiplication''
             [Some (Node ''Variable'' [] ''x''),
              Some (Node ''Terms''
                [Some (Node ''Term''
                   [Some (Node ''OpMult'' [Some (Node ''Char'' [] ''*'')] ''''),
                    Some (Node ''Number'' [] ''2'')] '''')] '''')] '''')] '''')\<rparr>]\<rparr>"
        "[[''x'' \<mapsto> float64_of_int 5]]"] this
  show ?thesis by (simp add: map_at_def)
qed

end
